theory Spec2Isabelle
  imports Main "HOL-Library.AList"
begin

section \<open>JavaScript values used by the messaging core\<close>

text \<open>
  Numbers are modelled as \<open>int\<close> (milliseconds, counters), optional fields as
  \<open>option\<close> (\<open>None\<close> is \<open>undefined\<close>), plain objects used as dictionaries and
  \<open>Map\<close>s as association lists in the order of enumeration. The value of an \<open>unknown\<close> field
  (message content, metadata values, a conversation result) is restricted to strings.
  Every \<open>throw new Error(text)\<close> of the source is a value of \<open>error\<close>: the
  constructor is the class the specification gives the failure, the argument is the
  text of the source.
\<close>

datatype error =
    InvalidArgument string
  | InvalidTransition string
  | CapacityExceeded string
  | RequestTimeout string
  | RequestFailed string
  | RequestCancelled string

text \<open>Truthiness of an optional string and of an optional number, and \<open>x || d\<close>.\<close>

definition truthy_str :: "string option \<Rightarrow> bool" where
  "truthy_str x = (case x of None \<Rightarrow> False | Some v \<Rightarrow> v \<noteq> [])"

definition truthy_num :: "int option \<Rightarrow> bool" where
  "truthy_num x = (case x of None \<Rightarrow> False | Some v \<Rightarrow> v \<noteq> 0)"

definition or_str :: "string option \<Rightarrow> string \<Rightarrow> string" where
  "or_str x d = (case x of None \<Rightarrow> d | Some v \<Rightarrow> if v = [] then d else v)"

definition or_num :: "int option \<Rightarrow> int \<Rightarrow> int" where
  "or_num x d = (case x of None \<Rightarrow> d | Some v \<Rightarrow> if v = 0 then d else v)"

text \<open>The delay a timer of the runtime takes when \<open>setTimeout\<close> is called with
  \<open>delay\<close>: Node replaces a delay below 1 ms or above \<open>2^31 - 1\<close> ms by 1 ms.\<close>

definition timer_delay :: "int \<Rightarrow> int" where
  "timer_delay delay = (if delay < 1 \<or> delay > 2147483647 then 1 else delay)"

text \<open>
  \<open>obj[key] = value\<close> for a string \<open>value\<close> on a plain object, given by its own
  properties in the order in which they are enumerated: first the keys that are array
  indices (canonical decimal numerals below \<open>2^32 - 1\<close>), ascending, then the other
  keys in the order of their creation. The value of an own property is replaced where
  it stands. The key \<open>__proto__\<close>, when it is no own property, goes to the setter
  inherited from \<open>Object.prototype\<close>, which ignores a value that is no object.
\<close>

definition is_digit :: "char \<Rightarrow> bool" where
  "is_digit ch = (48 \<le> (of_char ch :: nat) \<and> (of_char ch :: nat) \<le> 57)"

definition decimal_value :: "string \<Rightarrow> nat" where
  "decimal_value key = foldl (\<lambda>n ch. 10 * n + (of_char ch - 48)) 0 key"

definition is_array_index :: "string \<Rightarrow> bool" where
  "is_array_index key \<longleftrightarrow>
     key \<noteq> [] \<and> list_all is_digit key \<and> (hd key \<noteq> CHR ''0'' \<or> key = ''0'')
     \<and> decimal_value key < 4294967295"

fun insert_index ::
  "string \<Rightarrow> string \<Rightarrow> (string \<times> string) list \<Rightarrow> (string \<times> string) list" where
  "insert_index key val [] = [(key, val)]"
| "insert_index key val (p # ps) =
     (if is_array_index (fst p) \<and> decimal_value (fst p) < decimal_value key
      then p # insert_index key val ps else (key, val) # p # ps)"

definition js_set ::
  "string \<Rightarrow> string \<Rightarrow> (string \<times> string) list \<Rightarrow> (string \<times> string) list" where
  "js_set key val obj =
     (if key \<in> fst ` set obj then AList.update key val obj
      else if key = ''__proto__'' then obj
      else if is_array_index key then insert_index key val obj
      else obj @ [(key, val)])"

section \<open>Message (core/message.ts)\<close>

datatype receiver = One string | Many "string list"

record Message =
  m_id :: string
  m_conversationId :: "string option"
  m_performative :: string
  m_sender :: string
  m_receiver :: receiver
  m_content :: "string option"
  m_contentType :: "string option"
  m_timestamp :: int
  m_inReplyTo :: "string option"
  m_language :: "string option"
  m_encoding :: "string option"
  m_ontology :: "string option"
  m_metadata :: "(string \<times> string) list option"

record MessageOptions =
  mo_id :: "string option"
  mo_timestamp :: "int option"
  mo_conversationId :: "string option"
  mo_performative :: string
  mo_sender :: string
  mo_receiver :: receiver
  mo_content :: "string option"
  mo_contentType :: "string option"
  mo_inReplyTo :: "string option"
  mo_language :: "string option"
  mo_encoding :: "string option"
  mo_ontology :: "string option"
  mo_metadata :: "(string \<times> string) list option"

text \<open>\<open>Message.validate\<close>: the checks in the order of the source (the warning for an
  unknown performative has no effect on the result).\<close>

definition validate :: "Message \<Rightarrow> error option" where
  "validate m =
     (if m_performative m = [] then Some (InvalidArgument ''Performative is required'')
      else if m_sender m = [] then Some (InvalidArgument ''Sender is required'')
      else if m_receiver m = One [] then Some (InvalidArgument ''Receiver is required'')
      else if m_receiver m = Many [] then
        Some (InvalidArgument ''Message receiver array cannot be empty'')
      else None)"

text \<open>The constructor; \<open>uuid\<close> is what \<open>uuidv4()\<close> returns and \<open>now\<close> what
  \<open>Date.now()\<close> returns at the call.\<close>

definition Message_new :: "string \<Rightarrow> int \<Rightarrow> MessageOptions \<Rightarrow> error + Message" where
  "Message_new uuid now opts =
     (let m = \<lparr> m_id = or_str (mo_id opts) uuid,
                 m_conversationId = mo_conversationId opts,
                 m_performative = mo_performative opts,
                 m_sender = mo_sender opts,
                 m_receiver = mo_receiver opts,
                 m_content = mo_content opts,
                 m_contentType = mo_contentType opts,
                 m_timestamp = or_num (mo_timestamp opts) now,
                 m_inReplyTo = mo_inReplyTo opts,
                 m_language = mo_language opts,
                 m_encoding = mo_encoding opts,
                 m_ontology = mo_ontology opts,
                 m_metadata = mo_metadata opts \<rparr>
      in case validate m of Some e \<Rightarrow> Inl e | None \<Rightarrow> Inr m)"

section \<open>Conversation (conversation/conversation.ts)\<close>

datatype ConversationState =
  Initiated | Active | Waiting | Completed | Failed | Timeout | Cancelled

fun state_name :: "ConversationState \<Rightarrow> string" where
  "state_name Initiated = ''initiated''"
| "state_name Active = ''active''"
| "state_name Waiting = ''waiting''"
| "state_name Completed = ''completed''"
| "state_name Failed = ''failed''"
| "state_name Timeout = ''timeout''"
| "state_name Cancelled = ''cancelled''"

text \<open>What the conversation emits through its \<open>EventEmitter\<close>, in order.\<close>

datatype conv_event =
    StateChanged ConversationState ConversationState
  | StateEvent ConversationState
  | MessageAdded Message
  | ParticipantAdded string
  | ParticipantRemoved string

record ConversationOptions =
  co_id :: "string option"
  co_participants :: "string list"
  co_protocol :: "string option"
  co_initiator :: string
  co_timeout :: "int option"
  co_maxMessages :: "int option"
  co_metadata :: "(string \<times> string) list option"

text \<open>The fields of the class. \<open>cv_timeoutHandle\<close> is the armed deadline timer, given
  by the time at which it fires; \<open>cv_emitted\<close> is the log of emitted events.\<close>

record Conversation =
  cv_id :: string
  cv_participants :: "string list"
  cv_protocol :: "string option"
  cv_initiator :: string
  cv_timeout :: "int option"
  cv_maxMessages :: "int option"
  cv_created :: int
  cv_state :: ConversationState
  cv_updated :: int
  cv_messages :: "Message list"
  cv_messageIndex :: "(string \<times> Message) list"
  cv_metadata :: "(string \<times> string) list"
  cv_timeoutHandle :: "int option"
  cv_result :: "string option"
  cv_error :: "string option"
  cv_emitted :: "conv_event list"

definition setupTimeout :: "int \<Rightarrow> Conversation \<Rightarrow> Conversation" where
  "setupTimeout now c =
     (if truthy_num (cv_timeout c)
      then c\<lparr>cv_timeoutHandle := Some (now + timer_delay (the (cv_timeout c)))\<rparr> else c)"

definition Conversation_new ::
  "string \<Rightarrow> int \<Rightarrow> ConversationOptions \<Rightarrow> error + Conversation" where
  "Conversation_new uuid now opts =
     (if co_initiator opts = [] then
        Inl (InvalidArgument ''Conversation initiator is required'')
      else if co_participants opts = [] then
        Inl (InvalidArgument ''Conversation must have at least one participant'')
      else if truthy_num (co_timeout opts) \<and> the (co_timeout opts) \<le> 0 then
        Inl (InvalidArgument ''Timeout must be positive'')
      else if truthy_num (co_maxMessages opts) \<and> the (co_maxMessages opts) \<le> 0 then
        Inl (InvalidArgument ''Max messages must be positive'')
      else
        Inr (setupTimeout now
          \<lparr> cv_id = or_str (co_id opts) uuid,
            cv_participants =
              (if co_initiator opts \<in> set (co_participants opts) then co_participants opts
               else co_participants opts @ [co_initiator opts]),
            cv_protocol = co_protocol opts,
            cv_initiator = co_initiator opts,
            cv_timeout = co_timeout opts,
            cv_maxMessages = co_maxMessages opts,
            cv_created = now,
            cv_state = Initiated,
            cv_updated = now,
            cv_messages = [],
            cv_messageIndex = [],
            cv_metadata = (case co_metadata opts of None \<Rightarrow> [] | Some md \<Rightarrow> md),
            cv_timeoutHandle = None,
            cv_result = None,
            cv_error = None,
            cv_emitted = [] \<rparr>))"

definition isActive :: "Conversation \<Rightarrow> bool" where
  "isActive c = (cv_state c = Active)"

definition isTerminal :: "Conversation \<Rightarrow> bool" where
  "isTerminal c = (cv_state c \<in> set [Completed, Failed, Cancelled, Timeout])"

text \<open>\<open>transitionTo\<close>, with \<open>clearTimeout\<close> inlined: the handle is undefined afterwards
  whether or not a timer was armed.\<close>

definition transitionTo :: "int \<Rightarrow> ConversationState \<Rightarrow> Conversation \<Rightarrow> Conversation" where
  "transitionTo now newState c =
     c\<lparr> cv_state := newState, cv_updated := now, cv_timeoutHandle := None,
        cv_emitted := cv_emitted c @ [StateChanged newState (cv_state c), StateEvent newState] \<rparr>"

text \<open>The lifecycle calls. \<open>Inl\<close> is the exception; every \<open>throw\<close> of the source
  precedes the first assignment of its method, so the object is as before the call.\<close>

definition activate :: "int \<Rightarrow> Conversation \<Rightarrow> error + Conversation" where
  "activate now c =
     (if cv_state c \<noteq> Initiated then
        Inl (InvalidTransition
               (''Cannot activate conversation from state: '' @ state_name (cv_state c)))
      else Inr (transitionTo now Active c))"

definition setWaiting :: "int \<Rightarrow> Conversation \<Rightarrow> error + Conversation" where
  "setWaiting now c =
     (if \<not> isActive c then
        Inl (InvalidTransition (''Cannot set waiting from state: '' @ state_name (cv_state c)))
      else Inr (transitionTo now Waiting c))"

definition complete :: "int \<Rightarrow> string option \<Rightarrow> Conversation \<Rightarrow> error + Conversation" where
  "complete now result c =
     (if isTerminal c then
        Inl (InvalidTransition
               (''Cannot complete conversation from terminal state: '' @ state_name (cv_state c)))
      else Inr (transitionTo now Completed (c\<lparr>cv_result := result\<rparr>)))"

text \<open>\<open>fail\<close> takes the text of the error (of the \<open>Error\<close> object or the string).\<close>

definition fail :: "int \<Rightarrow> string \<Rightarrow> Conversation \<Rightarrow> error + Conversation" where
  "fail now err c =
     (if isTerminal c then
        Inl (InvalidTransition
               (''Cannot fail conversation from terminal state: '' @ state_name (cv_state c)))
      else Inr (transitionTo now Failed (c\<lparr>cv_error := Some err\<rparr>)))"

definition cancel :: "int \<Rightarrow> string option \<Rightarrow> Conversation \<Rightarrow> error + Conversation" where
  "cancel now reason c =
     (if isTerminal c then
        Inl (InvalidTransition
               (''Cannot cancel conversation from terminal state: '' @ state_name (cv_state c)))
      else Inr (transitionTo now Cancelled
             (if truthy_str reason
              then c\<lparr>cv_metadata :=
                       AList.update ''cancellationReason'' (the reason) (cv_metadata c)\<rparr>
              else c)))"

text \<open>The callback of the deadline timer (\<open>Conversation.handleTimeout\<close>; the protocol
  has a method of the same name).\<close>

definition conv_handleTimeout :: "int \<Rightarrow> Conversation \<Rightarrow> Conversation" where
  "conv_handleTimeout now c = (if \<not> isTerminal c then transitionTo now Timeout c else c)"

definition addMessage :: "int \<Rightarrow> Message \<Rightarrow> Conversation \<Rightarrow> error + Conversation" where
  "addMessage now message c =
     (if m_conversationId message \<noteq> None \<and> m_conversationId message \<noteq> Some (cv_id c) then
        Inl (InvalidArgument ''Message conversation ID does not match'')
      else if truthy_num (cv_maxMessages c)
              \<and> int (length (cv_messages c)) \<ge> the (cv_maxMessages c) then
        Inl (CapacityExceeded ''Maximum number of messages reached'')
      else
        Inr (c\<lparr> cv_messages := cv_messages c @ [message],
                 cv_messageIndex := AList.update (m_id message) message (cv_messageIndex c),
                 cv_updated := now,
                 cv_emitted := cv_emitted c @ [MessageAdded message] \<rparr>))"

definition getMessage :: "string \<Rightarrow> Conversation \<Rightarrow> Message option" where
  "getMessage messageId c = map_of (cv_messageIndex c) messageId"

definition getMessageCount :: "Conversation \<Rightarrow> nat" where
  "getMessageCount c = length (cv_messages c)"

definition hasParticipant :: "string \<Rightarrow> Conversation \<Rightarrow> bool" where
  "hasParticipant agentId c = (agentId \<in> set (cv_participants c))"

definition addParticipant :: "int \<Rightarrow> string \<Rightarrow> Conversation \<Rightarrow> Conversation" where
  "addParticipant now agentId c =
     (if agentId \<notin> set (cv_participants c) then
        c\<lparr> cv_participants := cv_participants c @ [agentId],
           cv_updated := now,
           cv_emitted := cv_emitted c @ [ParticipantAdded agentId] \<rparr>
      else c)"

text \<open>\<open>indexOf\<close> and \<open>splice(index, 1)\<close> take out the first occurrence.\<close>

definition removeParticipant :: "int \<Rightarrow> string \<Rightarrow> Conversation \<Rightarrow> error + Conversation" where
  "removeParticipant now agentId c =
     (if agentId = cv_initiator c then
        Inl (InvalidArgument ''Cannot remove conversation initiator'')
      else if agentId \<in> set (cv_participants c) then
        Inr (c\<lparr> cv_participants := remove1 agentId (cv_participants c),
                 cv_updated := now,
                 cv_emitted := cv_emitted c @ [ParticipantRemoved agentId] \<rparr>)
      else Inr c)"

definition setMetadata :: "int \<Rightarrow> string \<Rightarrow> string \<Rightarrow> Conversation \<Rightarrow> Conversation" where
  "setMetadata now key val c =
     c\<lparr> cv_metadata := js_set key val (cv_metadata c), cv_updated := now \<rparr>"

record ConversationContext =
  cx_id :: string
  cx_participants :: "string list"
  cx_protocol :: "string option"
  cx_state :: ConversationState
  cx_metadata :: "(string \<times> string) list option"
  cx_created :: int
  cx_updated :: int

definition toContext :: "Conversation \<Rightarrow> ConversationContext" where
  "toContext c =
     \<lparr> cx_id = cv_id c,
       cx_participants = cv_participants c,
       cx_protocol = cv_protocol c,
       cx_state = cv_state c,
       cx_metadata = Some (cv_metadata c),
       cx_created = cv_created c,
       cx_updated = cv_updated c \<rparr>"

text \<open>\<open>fromContext(context, options?)\<close>: the two optional numbers of \<open>options\<close> are
  \<open>None\<close> when \<open>options\<close> is left out. The first participant is taken as initiator.\<close>

definition fromContext ::
  "string \<Rightarrow> int \<Rightarrow> ConversationContext \<Rightarrow> int option \<Rightarrow> int option \<Rightarrow> error + Conversation"
  where
  "fromContext uuid now context opt_timeout opt_maxMessages =
     (case cx_participants context of
        [] \<Rightarrow> Inl (InvalidArgument ''Conversation must have at least one participant'')
      | first # _ \<Rightarrow>
          (case Conversation_new uuid now
                  \<lparr> co_id = Some (cx_id context),
                    co_participants = cx_participants context,
                    co_protocol = cx_protocol context,
                    co_initiator = first,
                    co_timeout = opt_timeout,
                    co_maxMessages = opt_maxMessages,
                    co_metadata = cx_metadata context \<rparr> of
             Inl e \<Rightarrow> Inl e
           | Inr conversation \<Rightarrow>
               Inr (conversation\<lparr> cv_state := cx_state context,
                                  cv_updated := cx_updated context \<rparr>)))"

text \<open>The calls of the owner and the firing of the deadline timer, as one type, each
  with the time of the call. A call that throws leaves the conversation as it was.\<close>

datatype conv_op =
    Activate
  | SetWaiting
  | Complete "string option"
  | Fail string
  | Cancel "string option"
  | HandleTimeout
  | AddMessage Message
  | AddParticipant string
  | RemoveParticipant string
  | SetMetadata string string

fun apply_op :: "int \<Rightarrow> conv_op \<Rightarrow> Conversation \<Rightarrow> error + Conversation" where
  "apply_op now Activate c = activate now c"
| "apply_op now SetWaiting c = setWaiting now c"
| "apply_op now (Complete r) c = complete now r c"
| "apply_op now (Fail e) c = fail now e c"
| "apply_op now (Cancel r) c = cancel now r c"
| "apply_op now HandleTimeout c = Inr (conv_handleTimeout now c)"
| "apply_op now (AddMessage m) c = addMessage now m c"
| "apply_op now (AddParticipant a) c = Inr (addParticipant now a c)"
| "apply_op now (RemoveParticipant a) c = removeParticipant now a c"
| "apply_op now (SetMetadata k v) c = Inr (setMetadata now k v c)"

definition exec_op :: "Conversation \<Rightarrow> int \<times> conv_op \<Rightarrow> Conversation" where
  "exec_op c p = (case apply_op (fst p) (snd p) c of Inl _ \<Rightarrow> c | Inr c' \<Rightarrow> c')"

definition run_ops :: "(int \<times> conv_op) list \<Rightarrow> Conversation \<Rightarrow> Conversation" where
  "run_ops ops c = foldl exec_op c ops"

text \<open>A sequence of \<open>addMessage\<close> calls that stops at the first one that throws.\<close>

fun addMessages :: "(int \<times> Message) list \<Rightarrow> Conversation \<Rightarrow> error + Conversation" where
  "addMessages [] c = Inr c"
| "addMessages (p # ps) c =
     (case addMessage (fst p) (snd p) c of Inl e \<Rightarrow> Inl e | Inr c' \<Rightarrow> addMessages ps c')"

definition no_conflict :: "Conversation \<Rightarrow> Message \<Rightarrow> bool" where
  "no_conflict c m = (m_conversationId m = None \<or> m_conversationId m = Some (cv_id c))"

section \<open>RequestResponseProtocol (conversation/protocols/request-response.ts)\<close>

record RequestResponseOptions =
  ro_timeout :: "int option"
  ro_maxRetries :: "int option"
  ro_retryDelay :: "int option"

text \<open>A pending request is an object: the table and the suspended \<open>retryRequest\<close> calls
  hold references to it. \<open>pr_timeout\<close> is the handle of the last timer stored in it,
  \<open>pr_promise\<close> the promise whose \<open>resolve\<close> and \<open>reject\<close> the object carries,
  \<open>pr_conversation\<close> the reference to the conversation.\<close>

record PendingRequest =
  pr_id :: string
  pr_message :: Message
  pr_conversation :: nat
  pr_timeout :: "nat option"
  pr_promise :: nat
  pr_retries :: int
  pr_maxRetries :: int
  pr_retryDelay :: int

text \<open>What a scheduled timer runs: \<open>() => this.handleTimeout(id)\<close>, or the rest of a
  \<open>retryRequest\<close> call suspended at its \<open>await\<close>.\<close>

datatype callback = DeadlineCb string | RetryResumeCb nat

datatype outcome = Resolved Message | Rejected error

datatype event =
    Ev_requestInitiated Message nat
  | Ev_requestReceived Message nat
  | Ev_responseReceived Message Message
  | Ev_requestFailed Message Message error
  | Ev_requestTimeout Message error
  | Ev_requestRetry Message int
  | Ev_requestCancelled Message

text \<open>
  The protocol instance with the part of the runtime it acts on: \<open>pendingRequests\<close>
  is the \<open>Map\<close> from request id to the reference of the entry, \<open>heap\<close> the objects
  by reference, \<open>timers\<close> the active timers (handle, time at which it fires,
  callback) in the order they were armed, \<open>settled\<close> the promises that are settled,
  \<open>emitted\<close> the events emitted so far, \<open>clock\<close> the current time in milliseconds.
\<close>

record Protocol =
  pendingRequests :: "(string \<times> nat) list"
  heap :: "nat \<Rightarrow> PendingRequest"
  defaultTimeout :: int
  defaultMaxRetries :: int
  defaultRetryDelay :: int
  timers :: "(nat \<times> int \<times> callback) list"
  settled :: "nat \<Rightarrow> outcome option"
  emitted :: "event list"
  clock :: int
  nextHandle :: nat
  nextAddr :: nat
  nextPromise :: nat

definition RequestResponseProtocol_new :: "int \<Rightarrow> RequestResponseOptions \<Rightarrow> Protocol" where
  "RequestResponseProtocol_new now options =
     \<lparr> pendingRequests = [],
       heap = (\<lambda>_. undefined),
       defaultTimeout = or_num (ro_timeout options) 30000,
       defaultMaxRetries = or_num (ro_maxRetries options) 3,
       defaultRetryDelay = or_num (ro_retryDelay options) 1000,
       timers = [],
       settled = (\<lambda>_. None),
       emitted = [],
       clock = now,
       nextHandle = 0,
       nextAddr = 0,
       nextPromise = 0 \<rparr>"

text \<open>The runtime: timers, events, promises (a promise settles once; later calls of its
  \<open>resolve\<close> or \<open>reject\<close> do nothing). A timer is due \<open>timer_delay delay\<close> after the
  call of \<open>setTimeout\<close>.\<close>

definition setTimeout :: "callback \<Rightarrow> int \<Rightarrow> Protocol \<Rightarrow> nat \<times> Protocol" where
  "setTimeout cb delay s =
     (nextHandle s,
      s\<lparr> timers := timers s @ [(nextHandle s, clock s + timer_delay delay, cb)],
         nextHandle := Suc (nextHandle s) \<rparr>)"

definition clearTimeout :: "nat \<Rightarrow> Protocol \<Rightarrow> Protocol" where
  "clearTimeout h s = s\<lparr> timers := filter (\<lambda>t. fst t \<noteq> h) (timers s) \<rparr>"

definition emit :: "event \<Rightarrow> Protocol \<Rightarrow> Protocol" where
  "emit ev s = s\<lparr> emitted := emitted s @ [ev] \<rparr>"

definition settle :: "nat \<Rightarrow> outcome \<Rightarrow> Protocol \<Rightarrow> Protocol" where
  "settle p out s = (if settled s p = None then s\<lparr> settled := (settled s)(p \<mapsto> out) \<rparr> else s)"

definition validateMessage :: "Message \<Rightarrow> bool" where
  "validateMessage message = (m_performative message \<in> set [''request'', ''inform'', ''failure''])"

text \<open>\<open>initiateRequest\<close> returns the promise. It is an \<open>async\<close> function, so the
  \<open>throw\<close> for a wrong performative is a promise that is rejected at once.\<close>

definition initiateRequest ::
  "Message \<Rightarrow> nat \<Rightarrow> RequestResponseOptions \<Rightarrow> Protocol \<Rightarrow> nat \<times> Protocol" where
  "initiateRequest message conversation options s =
     (let p = nextPromise s; s0 = s\<lparr> nextPromise := Suc p \<rparr> in
      if m_performative message \<noteq> ''request'' then
        (p, settle p (Rejected (InvalidArgument
               (''Message must have performative '' @ [CHR 0x22] @ ''request'' @ [CHR 0x22]))) s0)
      else
        let timeout = or_num (ro_timeout options) (defaultTimeout s);
            maxRetries = or_num (ro_maxRetries options) (defaultMaxRetries s);
            retryDelay = or_num (ro_retryDelay options) (defaultRetryDelay s);
            pendingRequest =
              \<lparr> pr_id = m_id message, pr_message = message, pr_conversation = conversation,
                pr_timeout = None, pr_promise = p, pr_retries = 0,
                pr_maxRetries = maxRetries, pr_retryDelay = retryDelay \<rparr>;
            a = nextAddr s0;
            s1 = s0\<lparr> heap := (heap s0)(a := pendingRequest), nextAddr := Suc a \<rparr>;
            s2 = (if timeout > 0 then
                    (let (h, s') = setTimeout (DeadlineCb (m_id message)) timeout s1
                     in s'\<lparr> heap := (heap s')(a := (heap s' a)\<lparr> pr_timeout := Some h \<rparr>) \<rparr>)
                  else s1);
            s3 = s2\<lparr> pendingRequests := AList.update (m_id message) a (pendingRequests s2) \<rparr>
        in (p, emit (Ev_requestInitiated message conversation) s3))"

definition handleRequest :: "Message \<Rightarrow> nat \<Rightarrow> Protocol \<Rightarrow> Protocol" where
  "handleRequest message conversation s = emit (Ev_requestReceived message conversation) s"

definition clearPendingRequest :: "string \<Rightarrow> Protocol \<Rightarrow> Protocol" where
  "clearPendingRequest requestId s =
     (case map_of (pendingRequests s) requestId of
        None \<Rightarrow> s
      | Some a \<Rightarrow>
          (let s1 = (case pr_timeout (heap s a) of Some h \<Rightarrow> clearTimeout h s | None \<Rightarrow> s)
           in s1\<lparr> pendingRequests := AList.delete requestId (pendingRequests s1) \<rparr>))"

definition handleResponse :: "Message \<Rightarrow> Protocol \<Rightarrow> Protocol" where
  "handleResponse message s =
     (if \<not> truthy_str (m_inReplyTo message) then s
      else case map_of (pendingRequests s) (the (m_inReplyTo message)) of
        None \<Rightarrow> s
      | Some a \<Rightarrow>
          (let s1 = clearPendingRequest (the (m_inReplyTo message)) s;
               s2 = settle (pr_promise (heap s1 a)) (Resolved message) s1
           in emit (Ev_responseReceived message (pr_message (heap s2 a))) s2))"

text \<open>\<open>retryRequest\<close> up to its \<open>await\<close>: the rest of the call is the callback of the
  timer armed for the retry delay.\<close>

definition retryRequest :: "nat \<Rightarrow> Protocol \<Rightarrow> Protocol" where
  "retryRequest a s =
     (let s1 = s\<lparr> heap := (heap s)(a := (heap s a)\<lparr> pr_retries := pr_retries (heap s a) + 1 \<rparr>) \<rparr>;
          s2 = (case pr_timeout (heap s1 a) of Some h \<Rightarrow> clearTimeout h s1 | None \<Rightarrow> s1)
      in snd (setTimeout (RetryResumeCb a) (pr_retryDelay (heap s2 a)) s2))"

text \<open>\<open>retryRequest\<close> after its \<open>await\<close>.\<close>

definition retryRequest_resume :: "nat \<Rightarrow> Protocol \<Rightarrow> Protocol" where
  "retryRequest_resume a s =
     (let timeout = defaultTimeout s;
          s1 = (if timeout > 0 then
                  (let (h, s') = setTimeout (DeadlineCb (pr_id (heap s a))) timeout s
                   in s'\<lparr> heap := (heap s')(a := (heap s' a)\<lparr> pr_timeout := Some h \<rparr>) \<rparr>)
                else s)
      in emit (Ev_requestRetry (pr_message (heap s1 a)) (pr_retries (heap s1 a))) s1)"

definition handleFailure :: "Message \<Rightarrow> Protocol \<Rightarrow> Protocol" where
  "handleFailure message s =
     (if \<not> truthy_str (m_inReplyTo message) then s
      else case map_of (pendingRequests s) (the (m_inReplyTo message)) of
        None \<Rightarrow> s
      | Some a \<Rightarrow>
          (let err = RequestFailed (or_str (m_content message) ''Request failed'') in
           if pr_retries (heap s a) < pr_maxRetries (heap s a) then retryRequest a s
           else
             (let s1 = clearPendingRequest (the (m_inReplyTo message)) s;
                  s2 = settle (pr_promise (heap s1 a)) (Rejected err) s1
              in emit (Ev_requestFailed message (pr_message (heap s2 a)) err) s2)))"

definition handleTimeout :: "string \<Rightarrow> Protocol \<Rightarrow> Protocol" where
  "handleTimeout requestId s =
     (case map_of (pendingRequests s) requestId of
        None \<Rightarrow> s
      | Some a \<Rightarrow>
          (let err = RequestTimeout ''Request timeout'' in
           if pr_retries (heap s a) < pr_maxRetries (heap s a) then retryRequest a s
           else
             (let s1 = clearPendingRequest requestId s;
                  s2 = settle (pr_promise (heap s1 a)) (Rejected err) s1
              in emit (Ev_requestTimeout (pr_message (heap s2 a)) err) s2)))"

definition handleMessageWithConversation :: "Message \<Rightarrow> nat \<Rightarrow> Protocol \<Rightarrow> Protocol" where
  "handleMessageWithConversation message conversation s =
     (if m_performative message = ''inform'' \<and> truthy_str (m_inReplyTo message) then
        handleResponse message s
      else if m_performative message = ''request'' then
        handleRequest message conversation s
      else if m_performative message = ''failure'' \<and> truthy_str (m_inReplyTo message) then
        handleFailure message s
      else s)"

text \<open>\<open>handleMessage\<close> builds a \<open>Message\<close> from the plain object first; a failure of
  the constructor rejects the promise the method returns (\<open>Inl\<close>).\<close>

definition handleMessage :: "string \<Rightarrow> Message \<Rightarrow> Protocol \<Rightarrow> error + Protocol" where
  "handleMessage uuid message s =
     (case Message_new uuid (clock s)
             \<lparr> mo_id = Some (m_id message),
               mo_timestamp = Some (m_timestamp message),
               mo_conversationId = m_conversationId message,
               mo_performative = m_performative message,
               mo_sender = m_sender message,
               mo_receiver = m_receiver message,
               mo_content = m_content message,
               mo_contentType = m_contentType message,
               mo_inReplyTo = m_inReplyTo message,
               mo_language = m_language message,
               mo_encoding = m_encoding message,
               mo_ontology = m_ontology message,
               mo_metadata = m_metadata message \<rparr> of
        Inl e \<Rightarrow> Inl e
      | Inr internalMessage \<Rightarrow>
          Inr (if m_performative message = ''inform'' \<and> truthy_str (m_inReplyTo message) then
                 handleResponse internalMessage s
               else if m_performative message = ''failure'' \<and> truthy_str (m_inReplyTo message) then
                 handleFailure internalMessage s
               else s))"

definition getPendingRequest :: "string \<Rightarrow> Protocol \<Rightarrow> PendingRequest option" where
  "getPendingRequest requestId s = map_option (heap s) (map_of (pendingRequests s) requestId)"

definition cancelRequest :: "string \<Rightarrow> Protocol \<Rightarrow> bool \<times> Protocol" where
  "cancelRequest requestId s =
     (case map_of (pendingRequests s) requestId of
        Some a \<Rightarrow>
          (let s1 = clearPendingRequest requestId s;
               s2 = settle (pr_promise (heap s1 a)) (Rejected (RequestCancelled ''Request cancelled'')) s1
           in (True, emit (Ev_requestCancelled (pr_message (heap s2 a))) s2))
      | None \<Rightarrow> (False, s))"

definition cancelAllRequests :: "Protocol \<Rightarrow> Protocol" where
  "cancelAllRequests s = foldl (\<lambda>s' requestId. snd (cancelRequest requestId s')) s
                               (map fst (pendingRequests s))"

definition getPendingRequestCount :: "Protocol \<Rightarrow> nat" where
  "getPendingRequestCount s = length (pendingRequests s)"

definition hasPendingRequests :: "Protocol \<Rightarrow> bool" where
  "hasPendingRequests s = (length (pendingRequests s) > 0)"

definition getCurrentState :: "Protocol \<Rightarrow> string" where
  "getCurrentState s = (if length (pendingRequests s) = 0 then ''idle'' else ''waiting'')"

text \<open>A timer fires: it leaves the set of active timers, the clock is at the time it was
  due (or later), and its callback runs to completion in that state.\<close>

definition expire :: "nat \<Rightarrow> int \<Rightarrow> Protocol \<Rightarrow> Protocol" where
  "expire h due s =
     s\<lparr> timers := filter (\<lambda>t. fst t \<noteq> h) (timers s), clock := max (clock s) due \<rparr>"

definition fire :: "nat \<Rightarrow> Protocol \<Rightarrow> Protocol" where
  "fire h s =
     (case find (\<lambda>t. fst t = h) (timers s) of
        None \<Rightarrow> s
      | Some t \<Rightarrow>
          (let s1 = expire h (fst (snd t)) s
           in case snd (snd t) of
                DeadlineCb requestId \<Rightarrow> handleTimeout requestId s1
              | RetryResumeCb a \<Rightarrow> retryRequest_resume a s1))"

text \<open>Everything that can happen to a protocol instance: the public calls, a timer
  firing, time passing.\<close>

datatype action =
    InitiateRequest Message nat RequestResponseOptions
  | HandleMessage string Message
  | HandleMessageWithConversation Message nat
  | CancelRequest string
  | CancelAllRequests
  | Fire nat
  | Advance int

fun step :: "action \<Rightarrow> Protocol \<Rightarrow> Protocol" where
  "step (InitiateRequest m c opts) s = snd (initiateRequest m c opts s)"
| "step (HandleMessage uuid m) s =
     (case handleMessage uuid m s of Inl _ \<Rightarrow> s | Inr s' \<Rightarrow> s')"
| "step (HandleMessageWithConversation m c) s = handleMessageWithConversation m c s"
| "step (CancelRequest requestId) s = snd (cancelRequest requestId s)"
| "step CancelAllRequests s = cancelAllRequests s"
| "step (Fire h) s = fire h s"
| "step (Advance d) s = s\<lparr> clock := clock s + max 0 d \<rparr>"

definition run :: "action list \<Rightarrow> Protocol \<Rightarrow> Protocol" where
  "run acts s = foldl (\<lambda>s' a. step a s') s acts"

inductive reachable :: "Protocol \<Rightarrow> bool" where
  reachable_new: "reachable (RequestResponseProtocol_new now options)"
| reachable_step: "reachable s \<Longrightarrow> reachable (step a s)"

text \<open>The event loop up to time \<open>t\<close>: the timer that is due first fires (the one armed
  first among equals), until none is due at \<open>t\<close>; the first argument bounds the number
  of firings.\<close>

fun earliest :: "(nat \<times> int \<times> callback) list \<Rightarrow> (nat \<times> int \<times> callback) option" where
  "earliest [] = None"
| "earliest (t # ts) =
     (case earliest ts of
        None \<Rightarrow> Some t
      | Some u \<Rightarrow> if fst (snd u) < fst (snd t) then Some u else Some t)"

fun run_until :: "nat \<Rightarrow> int \<Rightarrow> Protocol \<Rightarrow> Protocol" where
  "run_until 0 t s = s"
| "run_until (Suc n) t s =
     (case earliest (timers s) of
        None \<Rightarrow> s\<lparr> clock := max (clock s) t \<rparr>
      | Some u \<Rightarrow>
          if fst (snd u) \<le> t then run_until n t (fire (fst u) s)
          else s\<lparr> clock := max (clock s) t \<rparr>)"

text \<open>The active deadline timers that call \<open>handleTimeout\<close> for a request id.\<close>

definition deadline_timers :: "Protocol \<Rightarrow> string \<Rightarrow> (nat \<times> int \<times> callback) list" where
  "deadline_timers s requestId = filter (\<lambda>t. snd (snd t) = DeadlineCb requestId) (timers s)"

text \<open>The active timers of a retry delay: each resumes a suspended \<open>retryRequest\<close> call
  for the object at the address.\<close>

definition retry_timers :: "Protocol \<Rightarrow> nat \<Rightarrow> (nat \<times> int \<times> callback) list" where
  "retry_timers s a = filter (\<lambda>t. snd (snd t) = RetryResumeCb a) (timers s)"

section \<open>Concrete inputs\<close>

text \<open>A message, a conversation as its constructor builds it, and a request in flight,
  used where a statement is evaluated at a concrete input.\<close>

definition ex_message :: "string \<Rightarrow> string \<Rightarrow> string option \<Rightarrow> Message" where
  "ex_message mid performative inReplyTo =
     \<lparr> m_id = mid, m_conversationId = None, m_performative = performative,
       m_sender = ''agent-a'', m_receiver = One ''agent-b'', m_content = Some ''ping'',
       m_contentType = None, m_timestamp = 1, m_inReplyTo = inReplyTo,
       m_language = None, m_encoding = None, m_ontology = None, m_metadata = None \<rparr>"

definition ex_options :: "string list \<Rightarrow> int option \<Rightarrow> ConversationOptions" where
  "ex_options ps maxMessages =
     \<lparr> co_id = Some ''conv-1'', co_participants = ps, co_protocol = None,
       co_initiator = ''A'', co_timeout = None, co_maxMessages = maxMessages,
       co_metadata = None \<rparr>"

definition ex_conversation :: "string list \<Rightarrow> int option \<Rightarrow> Conversation" where
  "ex_conversation ps maxMessages =
     \<lparr> cv_id = ''conv-1'', cv_participants = ps, cv_protocol = None, cv_initiator = ''A'',
       cv_timeout = None, cv_maxMessages = maxMessages, cv_created = 0,
       cv_state = Initiated, cv_updated = 0, cv_messages = [], cv_messageIndex = [],
       cv_metadata = [], cv_timeoutHandle = None, cv_result = None, cv_error = None,
       cv_emitted = [] \<rparr>"

definition ex_completed :: Conversation where
  "ex_completed = exec_op (ex_conversation [''A'', ''B''] None) (5, Complete None)"

definition ex_blank_first :: Conversation where
  "ex_blank_first =
     \<lparr> cv_id = ''conv-2'', cv_participants = ['''', ''A''], cv_protocol = None,
       cv_initiator = ''A'', cv_timeout = None, cv_maxMessages = None, cv_created = 0,
       cv_state = Initiated, cv_updated = 0, cv_messages = [], cv_messageIndex = [],
       cv_metadata = [], cv_timeoutHandle = None, cv_result = None, cv_error = None,
       cv_emitted = [] \<rparr>"

definition ex_call_options :: "int option \<Rightarrow> int option \<Rightarrow> RequestResponseOptions" where
  "ex_call_options timeout maxRetries =
     \<lparr> ro_timeout = timeout, ro_maxRetries = maxRetries, ro_retryDelay = None \<rparr>"

definition ex_request :: Message where
  "ex_request = ex_message ''r1'' ''request'' None"

text \<open>The request \<open>r1\<close> just initiated, at time 0, on an instance constructed with the
  given timeout option.\<close>

definition ex_pending :: "int option \<Rightarrow> RequestResponseOptions \<Rightarrow> Protocol" where
  "ex_pending defaultT options =
     snd (initiateRequest ex_request 0 options
            (RequestResponseProtocol_new 0 (ex_call_options defaultT None)))"


definition ex_retrying :: Protocol where
  "ex_retrying = run [InitiateRequest ex_request 0 (ex_call_options (Some 50) None), Fire 0]
                     (RequestResponseProtocol_new 0 (ex_call_options None None))"

definition ex_negative_default :: Protocol where
  "ex_negative_default =
     run [InitiateRequest ex_request 0 (ex_call_options (Some 50) None),
          HandleMessageWithConversation (ex_message ''f1'' ''failure'' (Some ''r1'')) 0,
          Fire 1]
         (RequestResponseProtocol_new 0 (ex_call_options (Some (- 1)) None))"

definition ex_negative_default_expiry :: Protocol where
  "ex_negative_default_expiry =
     run [InitiateRequest ex_request 0 (ex_call_options (Some 50) None), Fire 0, Fire 1]
         (RequestResponseProtocol_new 0 (ex_call_options (Some (- 1)) None))"

definition ex_zero_option_retrying :: Protocol where
  "ex_zero_option_retrying =
     run [InitiateRequest ex_request 0 (ex_call_options (Some 0) None), Fire 0]
         (RequestResponseProtocol_new 0 (ex_call_options None None))"

text \<open>While the first retry delay of \<open>r1\<close> runs (its deadline fired at 50), a failure
  reply to it arrives; then the timers of the two retry delays fire.\<close>

definition ex_overlap :: Protocol where
  "ex_overlap =
     run [InitiateRequest ex_request 0 (ex_call_options (Some 50) None), Fire 0,
          HandleMessageWithConversation (ex_message ''f1'' ''failure'' (Some ''r1'')) 0,
          Fire 1, Fire 2]
         (RequestResponseProtocol_new 0 (ex_call_options None None))"

text \<open>Delays of \<open>2 ^ 31\<close> milliseconds: as the retry delay of the request, whose
  deadline has fired at 50; as the timeout of the request; and as the default timeout of
  the instance, where the deadline of the request and the timer of its retry delay have
  fired.\<close>

definition ex_long_retryDelay :: Protocol where
  "ex_long_retryDelay =
     run [InitiateRequest ex_request 0
            \<lparr> ro_timeout = Some 50, ro_maxRetries = None, ro_retryDelay = Some 2147483648 \<rparr>,
          Fire 0]
         (RequestResponseProtocol_new 0 (ex_call_options None None))"

definition ex_long_timeout :: Protocol where
  "ex_long_timeout = ex_pending None (ex_call_options (Some 2147483648) None)"

definition ex_long_default :: Protocol where
  "ex_long_default =
     run [InitiateRequest ex_request 0 (ex_call_options (Some 50) None), Fire 0, Fire 1]
         (RequestResponseProtocol_new 0 (ex_call_options (Some 2147483648) None))"

text \<open>\<open>r1\<close> is cancelled while its retry delay runs.\<close>

definition ex_cancelled_retrying :: Protocol where
  "ex_cancelled_retrying = snd (cancelRequest ''r1'' ex_retrying)"

section \<open>Well-formed protocol states\<close>

text \<open>
  What every state that the constructor and the operations produce satisfies: the table
  has one entry per id; an entry refers to an allocated object that carries the id it is
  stored under and a promise of its own, not yet settled; handles and promises not yet
  handed out are unused.
\<close>

definition protocol_inv :: "Protocol \<Rightarrow> bool" where
  "protocol_inv s \<longleftrightarrow>
     distinct (map fst (pendingRequests s))
   \<and> (\<forall>e\<in>set (pendingRequests s).
         snd e < nextAddr s \<and> pr_id (heap s (snd e)) = fst e
       \<and> pr_promise (heap s (snd e)) < nextPromise s
       \<and> settled s (pr_promise (heap s (snd e))) = None)
   \<and> (\<forall>e1\<in>set (pendingRequests s). \<forall>e2\<in>set (pendingRequests s).
         pr_promise (heap s (snd e1)) = pr_promise (heap s (snd e2)) \<longrightarrow> e1 = e2)
   \<and> (\<forall>p\<ge>nextPromise s. settled s p = None)
   \<and> (\<forall>t\<in>set (timers s). fst t < nextHandle s)
   \<and> (\<forall>e\<in>set (pendingRequests s). \<forall>h.
         pr_timeout (heap s (snd e)) = Some h \<longrightarrow> h < nextHandle s)"




section \<open>The effect of a retry\<close>

text \<open>
  \<open>sole_timer s k a\<close>: no retry delay is running for the entry \<open>a\<close>, pending under the
  id \<open>k\<close>, and the only active deadline timer for \<open>k\<close> (if there is one) is the timer
  whose handle the entry holds.
\<close>

definition sole_timer :: "Protocol \<Rightarrow> string \<Rightarrow> nat \<Rightarrow> bool" where
  "sole_timer s k a \<longleftrightarrow>
       retry_timers s a = []
     \<and> (\<forall>t\<in>set (deadline_timers s k). pr_timeout (heap s a) = Some (fst t))"

text \<open>
  \<open>retry_effect a k u s1\<close>: \<open>s1\<close> is the state \<open>u\<close> after a retry of the entry \<open>a\<close>,
  pending under the id \<open>k\<close>, has begun, and \<open>s2\<close> is \<open>s1\<close> after the timer of the retry
  delay has fired. In \<open>s1\<close> the retry count is one higher, the timer whose handle the
  entry holds is no longer active and no deadline timer for \<open>k\<close> is, one timer for the
  retry delay is armed, due \<open>timer_delay\<close> of the retry delay of the entry after the
  retry began, and the table, the promises, the events and the other fields of the entry
  are those of \<open>u\<close>. In \<open>s2\<close> exactly one deadline timer for \<open>k\<close> is armed, due
  \<open>timer_delay\<close> of the default timeout after the delay, the entry holds its handle, no
  retry delay is running (so \<open>sole_timer\<close> holds again), and \<open>requestRetry\<close> is the one
  event emitted since \<open>u\<close>.
\<close>

definition retry_effect :: "nat \<Rightarrow> string \<Rightarrow> Protocol \<Rightarrow> Protocol \<Rightarrow> bool" where
  "retry_effect a k u s1 \<longleftrightarrow>
     (let s2 = fire (nextHandle u) s1;
          resumeAt = clock u + timer_delay (pr_retryDelay (heap u a)) in
        pendingRequests s1 = pendingRequests u \<and> settled s1 = settled u
      \<and> emitted s1 = emitted u
      \<and> heap s1 a = (heap u a)\<lparr> pr_retries := pr_retries (heap u a) + 1 \<rparr>
      \<and> timers s1 = filter (\<lambda>t. Some (fst t) \<noteq> pr_timeout (heap u a)) (timers u)
                     @ [(nextHandle u, resumeAt, RetryResumeCb a)]
      \<and> (\<forall>h. pr_timeout (heap u a) = Some h \<longrightarrow> h \<notin> fst ` set (timers s1))
      \<and> deadline_timers s1 k = []
      \<and> retry_timers s1 a = [(nextHandle u, resumeAt, RetryResumeCb a)]
      \<and> pendingRequests s2 = pendingRequests u \<and> settled s2 = settled u
      \<and> heap s2 a = (heap u a)\<lparr> pr_retries := pr_retries (heap u a) + 1,
                                  pr_timeout := Some (Suc (nextHandle u)) \<rparr>
      \<and> timers s2 = filter (\<lambda>t. Some (fst t) \<noteq> pr_timeout (heap u a)) (timers u)
                     @ [(Suc (nextHandle u), resumeAt + timer_delay (defaultTimeout u),
                         DeadlineCb k)]
      \<and> deadline_timers s2 k
          = [(Suc (nextHandle u), resumeAt + timer_delay (defaultTimeout u), DeadlineCb k)]
      \<and> retry_timers s2 a = []
      \<and> sole_timer s2 k a
      \<and> emitted s2 = emitted u @ [Ev_requestRetry (pr_message (heap u a))
                                     (pr_retries (heap u a) + 1)])"

section \<open>Conversation: lifecycle, capacity, participants, context\<close>

lemmas conv_defs = activate_def setWaiting_def complete_def fail_def cancel_def
  conv_handleTimeout_def addMessage_def addParticipant_def removeParticipant_def
  setMetadata_def transitionTo_def isTerminal_def isActive_def

lemma terminal_cases:
  "isTerminal c \<Longrightarrow> cv_state c \<noteq> Initiated \<and> cv_state c \<noteq> Active"
  by (auto simp: isTerminal_def)

lemma ex_completed_eq:
  "ex_completed = (ex_conversation [''A'', ''B''] None)
      \<lparr> cv_state := Completed, cv_updated := 5,
        cv_emitted := [StateChanged Completed Initiated, StateEvent Completed] \<rparr>"
  by (simp add: ex_completed_def exec_op_def complete_def isTerminal_def transitionTo_def
        ex_conversation_def)

text \<open>
  C1 (as amended). In a terminal state (completed, failed, cancelled, timeout) each of
  \<open>activate\<close>, \<open>setWaiting\<close>, \<open>complete\<close>, \<open>fail\<close> and \<open>cancel\<close> fails with
  InvalidTransition and leaves the conversation exactly as it was, and the firing of the
  deadline timer changes nothing. \<open>addMessage\<close> does not look at the lifecycle state:
  it appends when the message declares no other conversation id and the log is not full,
  and whether it appends or fails, the state, the result and the error payload are as
  before.
\<close>

theorem terminal_lifecycle_rejected:
  assumes "isTerminal c"
  shows "activate now c = Inl (InvalidTransition
            (''Cannot activate conversation from state: '' @ state_name (cv_state c)))
       \<and> setWaiting now c = Inl (InvalidTransition
            (''Cannot set waiting from state: '' @ state_name (cv_state c)))
       \<and> complete now r c = Inl (InvalidTransition
            (''Cannot complete conversation from terminal state: '' @ state_name (cv_state c)))
       \<and> fail now e c = Inl (InvalidTransition
            (''Cannot fail conversation from terminal state: '' @ state_name (cv_state c)))
       \<and> cancel now reason c = Inl (InvalidTransition
            (''Cannot cancel conversation from terminal state: '' @ state_name (cv_state c)))
       \<and> conv_handleTimeout now c = c
       \<and> exec_op c (now, Activate) = c \<and> exec_op c (now, SetWaiting) = c
       \<and> exec_op c (now, Complete r) = c \<and> exec_op c (now, Fail e) = c
       \<and> exec_op c (now, Cancel reason) = c \<and> exec_op c (now, HandleTimeout) = c
       \<and> cv_state (exec_op c (now, AddMessage m)) = cv_state c
       \<and> cv_result (exec_op c (now, AddMessage m)) = cv_result c
       \<and> cv_error (exec_op c (now, AddMessage m)) = cv_error c
       \<and> (no_conflict c m
            \<and> \<not> (truthy_num (cv_maxMessages c)
                   \<and> the (cv_maxMessages c) \<le> int (length (cv_messages c))) \<longrightarrow>
            (\<exists>c'. addMessage now m c = Inr c' \<and> cv_messages c' = cv_messages c @ [m]))"
  using assms terminal_cases[OF assms]
  by (auto simp: conv_defs exec_op_def no_conflict_def split: if_splits sum.splits)

text \<open>The theorem at the conversation completed at time 5.\<close>

theorem terminal_lifecycle_rejected_witness:
  "isTerminal ex_completed
   \<and> activate 6 ex_completed
       = Inl (InvalidTransition ''Cannot activate conversation from state: completed'')
   \<and> cancel 6 (Some ''late'') ex_completed
       = Inl (InvalidTransition ''Cannot cancel conversation from terminal state: completed'')
   \<and> no_conflict ex_completed (ex_message ''m1'' ''inform'' None)
   \<and> \<not> (truthy_num (cv_maxMessages ex_completed)
           \<and> the (cv_maxMessages ex_completed) \<le> int (length (cv_messages ex_completed)))
   \<and> (\<exists>c'. addMessage 6 (ex_message ''m1'' ''inform'' None) ex_completed = Inr c'
          \<and> cv_messages c' = [ex_message ''m1'' ''inform'' None])"
proof -
  have h: "isTerminal ex_completed"
    by (simp add: ex_completed_eq isTerminal_def)
  have st: "state_name (cv_state ex_completed) = ''completed''"
      "cv_messages ex_completed = []"
    by (simp_all add: ex_completed_eq ex_conversation_def)
  have n: "no_conflict ex_completed (ex_message ''m1'' ''inform'' None)"
      "\<not> (truthy_num (cv_maxMessages ex_completed)
           \<and> the (cv_maxMessages ex_completed) \<le> int (length (cv_messages ex_completed)))"
    by (simp_all add: ex_completed_eq ex_conversation_def no_conflict_def ex_message_def
          truthy_num_def)
  show ?thesis
    using h n terminal_lifecycle_rejected
            [OF h, of 6 None "''x''" "Some ''late''" "ex_message ''m1'' ''inform'' None"]
    unfolding st by simp
qed

text \<open>
  C1 as stated fails: a conversation that was completed still takes a message. The
  conversation is built by the constructor, completed at time 5, and \<open>addMessage\<close> at
  time 6 returns normally with the message in the log and in the index.
\<close>

theorem terminal_addMessage_appends:
  "Conversation_new ''u'' 0 (ex_options [''A'', ''B''] None)
     = Inr (ex_conversation [''A'', ''B''] None)
   \<and> complete 5 None (ex_conversation [''A'', ''B''] None) = Inr ex_completed
   \<and> isTerminal ex_completed
   \<and> addMessage 6 (ex_message ''m1'' ''inform'' None) ex_completed
       = Inr (ex_completed
           \<lparr> cv_messages := [ex_message ''m1'' ''inform'' None],
             cv_messageIndex := [(''m1'', ex_message ''m1'' ''inform'' None)],
             cv_updated := 6,
             cv_emitted := [StateChanged Completed Initiated, StateEvent Completed,
                            MessageAdded (ex_message ''m1'' ''inform'' None)] \<rparr>)"
  by (simp add: ex_completed_eq Conversation_new_def ex_options_def ex_conversation_def
        setupTimeout_def truthy_num_def or_str_def complete_def isTerminal_def
        transitionTo_def addMessage_def ex_message_def)

subsection \<open>What the operations keep\<close>

lemma apply_op_frame:
  assumes "apply_op now op c = Inr c'"
  shows "cv_id c' = cv_id c \<and> cv_initiator c' = cv_initiator c
       \<and> cv_maxMessages c' = cv_maxMessages c"
  using assms by (cases op) (auto simp: conv_defs split: if_splits)

lemma apply_op_initiator_member:
  assumes "apply_op now op c = Inr c'" and "cv_initiator c \<in> set (cv_participants c)"
  shows "cv_initiator c' \<in> set (cv_participants c')"
  using assms by (cases op) (auto simp: conv_defs split: if_splits)

lemma apply_op_distinct:
  assumes "apply_op now op c = Inr c'" and "distinct (cv_participants c)"
  shows "distinct (cv_participants c')"
  using assms by (cases op) (auto simp: conv_defs split: if_splits)

lemma exec_op_cases:
  "exec_op c p = c \<or> apply_op (fst p) (snd p) c = Inr (exec_op c p)"
  by (simp add: exec_op_def split: sum.splits)

lemma run_ops_invariant:
  assumes step: "\<And>now op c c'. apply_op now op c = Inr c' \<Longrightarrow> P c \<Longrightarrow> P c'"
    and "P c"
  shows "P (run_ops ops c)"
  using assms(2) unfolding run_ops_def
proof (induction ops arbitrary: c)
  case Nil
  then show ?case by simp
next
  case (Cons p ps)
  have "P (exec_op c p)"
    using exec_op_cases[of c p] Cons.prems step by metis
  then show ?case using Cons.IH by simp
qed

lemma Conversation_new_fields:
  assumes "Conversation_new uuid now opts = Inr c"
  shows "cv_initiator c = co_initiator opts \<and> co_initiator opts \<noteq> []
       \<and> cv_initiator c \<in> set (cv_participants c)
       \<and> cv_id c = or_str (co_id opts) uuid
       \<and> cv_maxMessages c = co_maxMessages opts
       \<and> cv_messages c = []
       \<and> cv_state c = Initiated
       \<and> (distinct (co_participants opts) \<longrightarrow> distinct (cv_participants c))"
  using assms
  by (auto simp: Conversation_new_def setupTimeout_def split: if_splits)

lemma run_ops_fields:
  "cv_id (run_ops ops c) = cv_id c \<and> cv_initiator (run_ops ops c) = cv_initiator c
   \<and> cv_maxMessages (run_ops ops c) = cv_maxMessages c"
  by (rule run_ops_invariant[where P="\<lambda>x. cv_id x = cv_id c \<and> cv_initiator x = cv_initiator c
          \<and> cv_maxMessages x = cv_maxMessages c"])
     (use apply_op_frame in \<open>auto\<close>)

lemma run_ops_initiator_member:
  assumes "cv_initiator c \<in> set (cv_participants c)"
  shows "cv_initiator (run_ops ops c) \<in> set (cv_participants (run_ops ops c))"
  by (rule run_ops_invariant[where P="\<lambda>x. cv_initiator x \<in> set (cv_participants x)"])
     (use assms apply_op_initiator_member in \<open>auto\<close>)

lemma run_ops_distinct:
  assumes "distinct (cv_participants c)"
  shows "distinct (cv_participants (run_ops ops c))"
  by (rule run_ops_invariant[where P="\<lambda>x. distinct (cv_participants x)"])
     (use assms apply_op_distinct in \<open>auto\<close>)

lemma addParticipant_idem:
  "addParticipant t2 a (addParticipant t1 a c) = addParticipant t1 a c
   \<and> a \<in> set (cv_participants (addParticipant t1 a c))"
  by (simp add: addParticipant_def)

lemma removeParticipant_first:
  assumes "a \<noteq> cv_initiator c"
  shows "\<exists>c1. removeParticipant t1 a c = Inr c1
          \<and> cv_participants c1 = remove1 a (cv_participants c)
          \<and> cv_initiator c1 = cv_initiator c"
  using assms by (auto simp: removeParticipant_def remove1_idem)

lemma removeParticipant_idem:
  assumes "a \<noteq> cv_initiator c" and "distinct (cv_participants c)"
  shows "\<exists>c1. removeParticipant t1 a c = Inr c1 \<and> a \<notin> set (cv_participants c1)
          \<and> set (cv_participants c1) = set (cv_participants c) - {a}
          \<and> removeParticipant t2 a c1 = Inr c1"
  using assms by (auto simp: removeParticipant_def)

lemma addMessages_within_capacity:
  assumes "cv_maxMessages c = Some N" and "0 < N"
    and "\<forall>p\<in>set ps. no_conflict c (snd p)"
    and "int (length (cv_messages c)) + int (length ps) \<le> N"
  shows "\<exists>c'. addMessages ps c = Inr c' \<and> cv_messages c' = cv_messages c @ map snd ps
           \<and> cv_id c' = cv_id c \<and> cv_maxMessages c' = cv_maxMessages c"
  using assms
proof (induction ps arbitrary: c)
  case Nil
  then show ?case by simp
next
  case (Cons p ps)
  let ?c1 = "c\<lparr> cv_messages := cv_messages c @ [snd p],
                 cv_messageIndex := AList.update (m_id (snd p)) (snd p) (cv_messageIndex c),
                 cv_updated := fst p,
                 cv_emitted := cv_emitted c @ [MessageAdded (snd p)] \<rparr>"
  have a: "addMessage (fst p) (snd p) c = Inr ?c1"
    using Cons.prems by (auto simp: addMessage_def no_conflict_def truthy_num_def)
  have "\<exists>c'. addMessages ps ?c1 = Inr c' \<and> cv_messages c' = cv_messages ?c1 @ map snd ps
           \<and> cv_id c' = cv_id ?c1 \<and> cv_maxMessages c' = cv_maxMessages ?c1"
    using Cons.prems by (intro Cons.IH) (auto simp: no_conflict_def)
  then show ?case using a by auto
qed

text \<open>
  C5. A conversation constructed with \<open>maxMessages = N\<close>, \<open>N\<close> positive, takes any
  \<open>N\<close> messages that declare no other conversation id: all \<open>N\<close> appends succeed, the log
  is these messages in order, and one more \<open>addMessage\<close> fails with CapacityExceeded, the
  log staying at length \<open>N\<close>.
\<close>

theorem maxMessages_capacity:
  assumes "Conversation_new uuid now opts = Inr c"
    and "co_maxMessages opts = Some N" and "0 < N"
    and "length ps = nat N"
    and "\<forall>p\<in>set ps. no_conflict c (snd p)"
    and "no_conflict c m"
  shows "\<exists>c'. addMessages ps c = Inr c'
           \<and> cv_messages c' = map snd ps
           \<and> int (length (cv_messages c')) = N
           \<and> addMessage t m c' = Inl (CapacityExceeded ''Maximum number of messages reached'')"
proof -
  note f = Conversation_new_fields[OF assms(1)]
  have "\<exists>c'. addMessages ps c = Inr c' \<and> cv_messages c' = cv_messages c @ map snd ps
           \<and> cv_id c' = cv_id c \<and> cv_maxMessages c' = cv_maxMessages c"
    using f assms by (intro addMessages_within_capacity[where N=N]) auto
  then obtain c' where c': "addMessages ps c = Inr c'" "cv_messages c' = map snd ps"
      "cv_id c' = cv_id c" "cv_maxMessages c' = Some N"
    using f assms(2) by auto
  have "addMessage t m c' = Inl (CapacityExceeded ''Maximum number of messages reached'')"
    using c' assms(3,4,6) by (auto simp: addMessage_def no_conflict_def truthy_num_def)
  then show ?thesis using c' assms(3,4) by auto
qed

text \<open>The theorem at \<open>maxMessages = 2\<close>: two appends succeed, the third fails.\<close>

theorem maxMessages_capacity_witness:
  "Conversation_new ''u'' 0 (ex_options [''A'', ''B''] (Some 2))
     = Inr (ex_conversation [''A'', ''B''] (Some 2))
   \<and> (\<exists>c'. addMessages [(1, ex_message ''m1'' ''request'' None),
                          (2, ex_message ''m2'' ''inform'' (Some ''m1''))]
                         (ex_conversation [''A'', ''B''] (Some 2)) = Inr c'
          \<and> cv_messages c' = [ex_message ''m1'' ''request'' None,
                               ex_message ''m2'' ''inform'' (Some ''m1'')]
          \<and> int (length (cv_messages c')) = 2
          \<and> addMessage 3 (ex_message ''m3'' ''inform'' None) c'
              = Inl (CapacityExceeded ''Maximum number of messages reached''))"
proof -
  have h1: "Conversation_new ''u'' 0 (ex_options [''A'', ''B''] (Some 2))
     = Inr (ex_conversation [''A'', ''B''] (Some 2))"
    by (simp add: Conversation_new_def ex_options_def ex_conversation_def
        setupTimeout_def truthy_num_def or_str_def)
  have h2: "co_maxMessages (ex_options [''A'', ''B''] (Some 2)) = Some 2"
    by (simp add: ex_options_def)
  have h3: "(0::int) < 2" by simp
  have h4: "length [(1::int, ex_message ''m1'' ''request'' None),
                    (2, ex_message ''m2'' ''inform'' (Some ''m1''))] = nat 2"
    by simp
  have h5: "\<forall>p\<in>set [(1::int, ex_message ''m1'' ''request'' None),
                      (2, ex_message ''m2'' ''inform'' (Some ''m1''))].
              no_conflict (ex_conversation [''A'', ''B''] (Some 2)) (snd p)"
    by (simp add: no_conflict_def ex_message_def)
  have h6: "no_conflict (ex_conversation [''A'', ''B''] (Some 2))
              (ex_message ''m3'' ''inform'' None)"
    by (simp add: no_conflict_def ex_message_def)
  show ?thesis
    using h1 maxMessages_capacity [OF h1 h2 h3 h4 h5 h6, of 3] by simp
qed

text \<open>\<open>setMetadata\<close> on the metadata object: the key \<open>__proto__\<close> is not stored; the
  keys that are array indices are enumerated first, in ascending order, and the other
  keys after them in the order in which they were first set.\<close>

lemma setMetadata_enumeration:
  "cv_metadata (setMetadata 1 ''__proto__'' ''x'' (ex_conversation [''A''] None)) = []
   \<and> cv_metadata (setMetadata 4 ''k'' ''w'' (setMetadata 3 ''2'' ''b'' (setMetadata 2 ''k'' ''v''
        (setMetadata 1 ''10'' ''a'' (ex_conversation [''A''] None)))))
       = [(''2'', ''b''), (''10'', ''a''), (''k'', ''w'')]"
  by (simp add: setMetadata_def js_set_def ex_conversation_def is_array_index_def is_digit_def
        decimal_value_def)

text \<open>A conversation built by the constructor, whatever is done to it afterwards, has a
  non-empty identifier (\<open>uuidv4()\<close> returns a non-empty string) and a non-empty
  participant list.\<close>

lemma constructed_conversation_wellformed:
  assumes "Conversation_new uuid t0 opts = Inr c0" and "uuid \<noteq> []"
  shows "cv_id (run_ops ops c0) \<noteq> [] \<and> cv_participants (run_ops ops c0) \<noteq> []"
proof -
  note f = Conversation_new_fields[OF assms(1)]
  have "cv_id c0 \<noteq> []"
    using f assms(2) by (auto simp: or_str_def split: option.splits)
  moreover have "cv_initiator (run_ops ops c0) \<in> set (cv_participants (run_ops ops c0))"
    using f run_ops_initiator_member[of c0 ops] by blast
  ultimately show ?thesis
    using run_ops_fields[of ops c0] by auto
qed

text \<open>
  C6 (as amended). For a conversation whose first participant is a non-empty id (its own
  identifier is non-empty and its participant list is non-empty, as the constructor
  leaves them), \<open>fromContext (toContext c)\<close> succeeds and the conversation it builds has
  the identifier, the participant list, the state and the metadata of \<open>c\<close>.
\<close>

theorem context_round_trip:
  assumes "cv_id c \<noteq> []" and "cv_participants c \<noteq> []" and "hd (cv_participants c) \<noteq> []"
  shows "\<exists>c'. fromContext uuid now (toContext c) None None = Inr c'
           \<and> cv_id c' = cv_id c \<and> cv_participants c' = cv_participants c
           \<and> cv_state c' = cv_state c \<and> cv_metadata c' = cv_metadata c"
  using assms
  by (cases "cv_participants c")
     (auto simp: fromContext_def toContext_def Conversation_new_def setupTimeout_def
                 truthy_num_def or_str_def)

text \<open>The theorem at the completed conversation.\<close>

theorem context_round_trip_witness:
  "cv_id ex_completed \<noteq> [] \<and> cv_participants ex_completed \<noteq> []
   \<and> hd (cv_participants ex_completed) \<noteq> []
   \<and> (\<exists>c'. fromContext ''v'' 9 (toContext ex_completed) None None = Inr c'
          \<and> cv_id c' = ''conv-1'' \<and> cv_participants c' = [''A'', ''B'']
          \<and> cv_state c' = Completed \<and> cv_metadata c' = [])"
proof -
  have h1: "cv_id ex_completed \<noteq> []"
    and h2: "cv_participants ex_completed \<noteq> []"
    and h3: "hd (cv_participants ex_completed) \<noteq> []"
    by (simp_all add: ex_completed_eq ex_conversation_def)
  have e: "cv_id ex_completed = ''conv-1''" "cv_participants ex_completed = [''A'', ''B'']"
      "cv_state ex_completed = Completed" "cv_metadata ex_completed = []"
    by (simp_all add: ex_completed_eq ex_conversation_def)
  show ?thesis
    using h1 h2 h3 context_round_trip [OF h1 h2 h3, of "''v''" 9] unfolding e by simp
qed

text \<open>
  C6 as stated fails: the constructor accepts the participants \<open>['''', ''A'']\<close> with
  initiator \<open>''A''\<close>; \<open>fromContext\<close> takes the first participant, the empty string, as
  initiator and the constructor it calls throws.
\<close>

theorem context_round_trip_blank_first:
  "Conversation_new ''u'' 0
     \<lparr> co_id = Some ''conv-2'', co_participants = ['''', ''A''], co_protocol = None,
       co_initiator = ''A'', co_timeout = None, co_maxMessages = None, co_metadata = None \<rparr>
     = Inr ex_blank_first
   \<and> fromContext ''v'' 1 (toContext ex_blank_first) None None
       = Inl (InvalidArgument ''Conversation initiator is required'')"
  by (simp add: Conversation_new_def ex_blank_first_def setupTimeout_def truthy_num_def
        or_str_def fromContext_def toContext_def)

text \<open>
  C7 (as amended). After the constructor and any sequence of operations the initiator is
  the one given, it is a participant, and the participant list is not empty;
  \<open>removeParticipant\<close> of the initiator fails with InvalidArgument. \<open>addParticipant\<close>
  appends the participant when it is not yet one and changes nothing otherwise, so adding
  a participant twice is adding it once. \<open>removeParticipant\<close> of another participant
  takes out its first occurrence and leaves the rest of the list as it is: when the list
  given to the constructor has no duplicates, the participant is gone after one removal,
  the other participants are all still there, and a second removal changes nothing.
\<close>

theorem initiator_membership:
  assumes "Conversation_new uuid t0 opts = Inr c0" and "c = run_ops ops c0"
  shows "cv_initiator c = co_initiator opts
       \<and> cv_initiator c \<in> set (cv_participants c)
       \<and> cv_participants c \<noteq> []
       \<and> removeParticipant t (cv_initiator c) c
           = Inl (InvalidArgument ''Cannot remove conversation initiator'')
       \<and> addParticipant t2 a (addParticipant t1 a c) = addParticipant t1 a c
       \<and> a \<in> set (cv_participants (addParticipant t1 a c))
       \<and> cv_participants (addParticipant t1 a c)
           = (if a \<in> set (cv_participants c) then cv_participants c
              else cv_participants c @ [a])
       \<and> cv_initiator (addParticipant t1 a c) = cv_initiator c
       \<and> (a \<noteq> cv_initiator c \<longrightarrow>
            (\<exists>c1. removeParticipant t1 a c = Inr c1
               \<and> cv_participants c1 = remove1 a (cv_participants c)
               \<and> cv_initiator c1 = cv_initiator c))
       \<and> (a \<noteq> cv_initiator c \<and> distinct (co_participants opts) \<longrightarrow>
            (\<exists>c1. removeParticipant t1 a c = Inr c1 \<and> a \<notin> set (cv_participants c1)
               \<and> set (cv_participants c1) = set (cv_participants c) - {a}
               \<and> removeParticipant t2 a c1 = Inr c1))"
proof -
  note f = Conversation_new_fields[OF assms(1)]
  have ini: "cv_initiator c = co_initiator opts"
    using f run_ops_fields[of ops c0] assms(2) by simp
  have mem: "cv_initiator c \<in> set (cv_participants c)"
    using f run_ops_initiator_member[of c0 ops] assms(2) by blast
  then have ne: "cv_participants c \<noteq> []" by auto
  have rem: "removeParticipant t (cv_initiator c) c
           = Inl (InvalidArgument ''Cannot remove conversation initiator'')"
    by (simp add: removeParticipant_def)
  have add: "cv_participants (addParticipant t1 a c)
           = (if a \<in> set (cv_participants c) then cv_participants c
              else cv_participants c @ [a])"
      "cv_initiator (addParticipant t1 a c) = cv_initiator c"
    by (simp_all add: addParticipant_def)
  have first: "a \<noteq> cv_initiator c \<longrightarrow>
            (\<exists>c1. removeParticipant t1 a c = Inr c1
               \<and> cv_participants c1 = remove1 a (cv_participants c)
               \<and> cv_initiator c1 = cv_initiator c)"
    using removeParticipant_first by blast
  have idem: "a \<noteq> cv_initiator c \<and> distinct (co_participants opts) \<longrightarrow>
            (\<exists>c1. removeParticipant t1 a c = Inr c1 \<and> a \<notin> set (cv_participants c1)
               \<and> set (cv_participants c1) = set (cv_participants c) - {a}
               \<and> removeParticipant t2 a c1 = Inr c1)"
  proof
    assume h: "a \<noteq> cv_initiator c \<and> distinct (co_participants opts)"
    then have "distinct (cv_participants c)"
      using f run_ops_distinct[of c0 ops] assms(2) by blast
    then show "\<exists>c1. removeParticipant t1 a c = Inr c1 \<and> a \<notin> set (cv_participants c1)
               \<and> set (cv_participants c1) = set (cv_participants c) - {a}
               \<and> removeParticipant t2 a c1 = Inr c1"
      using h removeParticipant_idem by blast
  qed
  show ?thesis
    using ini mem ne rem add first idem addParticipant_idem[of t2 a t1 c] by blast
qed

text \<open>The theorem at a conversation whose initiator \<open>''A''\<close> was not in the list given:
  after two removals (the one of the initiator throws) and an activation, \<open>''A''\<close> is a
  participant, and \<open>''C''\<close> is removed once and for all, which leaves \<open>''A''\<close>.\<close>

theorem initiator_membership_witness:
  "Conversation_new ''u'' 0 (ex_options [''B'', ''C''] None)
     = Inr (ex_conversation [''B'', ''C'', ''A''] None)
   \<and> ''C'' \<noteq> ''A'' \<and> distinct [''B'', ''C'']
   \<and> ''A'' \<in> set (cv_participants
          (run_ops [(1, RemoveParticipant ''B''), (2, RemoveParticipant ''A''), (3, Activate)]
             (ex_conversation [''B'', ''C'', ''A''] None)))
   \<and> cv_participants
          (run_ops [(1, RemoveParticipant ''B''), (2, RemoveParticipant ''A''), (3, Activate)]
             (ex_conversation [''B'', ''C'', ''A''] None)) = [''C'', ''A'']
   \<and> (\<exists>c1. removeParticipant 4 ''C''
          (run_ops [(1, RemoveParticipant ''B''), (2, RemoveParticipant ''A''), (3, Activate)]
             (ex_conversation [''B'', ''C'', ''A''] None)) = Inr c1
        \<and> cv_participants c1 = [''A''])
   \<and> (\<exists>c1. removeParticipant 4 ''C''
          (run_ops [(1, RemoveParticipant ''B''), (2, RemoveParticipant ''A''), (3, Activate)]
             (ex_conversation [''B'', ''C'', ''A''] None)) = Inr c1
        \<and> ''C'' \<notin> set (cv_participants c1) \<and> removeParticipant 5 ''C'' c1 = Inr c1)"
proof -
  let ?ops = "[(1, RemoveParticipant ''B''), (2, RemoveParticipant ''A''), (3, Activate)]"
  let ?c = "run_ops ?ops (ex_conversation [''B'', ''C'', ''A''] None)"
  have h1: "Conversation_new ''u'' 0 (ex_options [''B'', ''C''] None)
     = Inr (ex_conversation [''B'', ''C'', ''A''] None)"
    by (simp add: Conversation_new_def ex_options_def ex_conversation_def
        setupTimeout_def truthy_num_def or_str_def)
  have h2: "?c = run_ops ?ops (ex_conversation [''B'', ''C'', ''A''] None)"
    by simp
  have i: "co_initiator (ex_options [''B'', ''C''] None) = ''A''"
      "co_participants (ex_options [''B'', ''C''] None) = [''B'', ''C'']"
    by (simp_all add: ex_options_def)
  have ps: "cv_participants ?c = [''C'', ''A'']"
    by (simp add: run_ops_def exec_op_def ex_conversation_def removeParticipant_def
          activate_def transitionTo_def)
  note c7 = initiator_membership [OF h1 h2, of 4 5 "''C''" 4, unfolded i]
  have ini: "cv_initiator ?c = ''A''"
    using c7 by blast
  have mem: "''A'' \<in> set (cv_participants ?c)"
    using c7 ini by metis
  have d: "''C'' \<noteq> ''A''" "distinct [''B'', ''C'']" by simp_all
  have "\<exists>c1. removeParticipant 4 ''C'' ?c = Inr c1
        \<and> cv_participants c1 = remove1 ''C'' (cv_participants ?c)"
    using c7 d unfolding ini by blast
  then have one: "\<exists>c1. removeParticipant 4 ''C'' ?c = Inr c1 \<and> cv_participants c1 = [''A'']"
    unfolding ps by simp
  have two: "\<exists>c1. removeParticipant 4 ''C'' ?c = Inr c1
        \<and> ''C'' \<notin> set (cv_participants c1) \<and> removeParticipant 5 ''C'' c1 = Inr c1"
    using c7 d unfolding ini by blast
  show ?thesis using h1 mem d ps one two by blast
qed

text \<open>
  C7 as stated fails for removal: the constructor accepts a participant list that holds
  \<open>''B''\<close> twice; the first \<open>removeParticipant\<close> leaves \<open>''B''\<close> a participant, and the
  second changes the list again.
\<close>

theorem removeParticipant_duplicate:
  "Conversation_new ''u'' 0 (ex_options [''A'', ''B'', ''B''] None)
     = Inr (ex_conversation [''A'', ''B'', ''B''] None)
   \<and> cv_participants (exec_op (ex_conversation [''A'', ''B'', ''B''] None)
                         (1, RemoveParticipant ''B'')) = [''A'', ''B'']
   \<and> cv_participants (exec_op (exec_op (ex_conversation [''A'', ''B'', ''B''] None)
                                  (1, RemoveParticipant ''B''))
                         (2, RemoveParticipant ''B'')) = [''A'']"
  by (simp add: Conversation_new_def ex_options_def ex_conversation_def
        setupTimeout_def truthy_num_def or_str_def exec_op_def removeParticipant_def)

section \<open>RequestResponseProtocol: the invariant of reachable states\<close>

lemma set_update_subset: "set (AList.update k v al) \<subseteq> insert (k, v) (set al)"
  by (induction al) auto

lemma set_delete_eq: "set (AList.delete k al) = {e \<in> set al. fst e \<noteq> k}"
  by (auto simp: AList.delete_eq)

lemma inv_new: "protocol_inv (RequestResponseProtocol_new now options)"
  by (simp add: protocol_inv_def RequestResponseProtocol_new_def)

text \<open>Changes that touch neither the table nor the identity fields of the objects.\<close>

lemma inv_frame:
  assumes "protocol_inv s"
    and "pendingRequests s' = pendingRequests s"
    and "nextAddr s' = nextAddr s" and "nextPromise s' = nextPromise s"
    and "settled s' = settled s"
    and "\<forall>a. pr_id (heap s' a) = pr_id (heap s a) \<and> pr_promise (heap s' a) = pr_promise (heap s a)"
    and "\<forall>t\<in>set (timers s'). fst t < nextHandle s'"
    and "\<forall>e\<in>set (pendingRequests s). \<forall>h.
           pr_timeout (heap s' (snd e)) = Some h \<longrightarrow> h < nextHandle s'"
  shows "protocol_inv s'"
  using assms unfolding protocol_inv_def by simp

lemma inv_clearTimeout:
  assumes "protocol_inv s" shows "protocol_inv (clearTimeout h s)"
  by (rule inv_frame[OF assms]) (use assms in \<open>auto simp: clearTimeout_def protocol_inv_def\<close>)

lemma inv_emit:
  assumes "protocol_inv s" shows "protocol_inv (emit ev s)"
  by (rule inv_frame[OF assms]) (use assms in \<open>auto simp: emit_def protocol_inv_def\<close>)

lemma inv_setTimeout:
  assumes "protocol_inv s" shows "protocol_inv (snd (setTimeout cb d s))"
  by (rule inv_frame[OF assms])
     (use assms in \<open>auto simp: setTimeout_def protocol_inv_def less_Suc_eq\<close>)

lemma inv_retryRequest:
  assumes "protocol_inv s" shows "protocol_inv (retryRequest a s)"
  by (rule inv_frame[OF assms])
     (use assms in \<open>auto simp: retryRequest_def Let_def setTimeout_def clearTimeout_def
        protocol_inv_def less_Suc_eq split: option.splits\<close>)

lemma inv_retryRequest_resume:
  assumes "protocol_inv s" shows "protocol_inv (retryRequest_resume a s)"
  by (rule inv_frame[OF assms])
     (use assms in \<open>auto simp: retryRequest_resume_def Let_def setTimeout_def emit_def
        protocol_inv_def less_Suc_eq split: option.splits\<close>)

lemma clearPendingRequest_fields:
  "heap (clearPendingRequest k s) = heap s"
  "settled (clearPendingRequest k s) = settled s"
  "nextAddr (clearPendingRequest k s) = nextAddr s"
  "nextPromise (clearPendingRequest k s) = nextPromise s"
  "nextHandle (clearPendingRequest k s) = nextHandle s"
  "emitted (clearPendingRequest k s) = emitted s"
  "clock (clearPendingRequest k s) = clock s"
  "defaultTimeout (clearPendingRequest k s) = defaultTimeout s"
  "set (timers (clearPendingRequest k s)) \<subseteq> set (timers s)"
  by (auto simp: clearPendingRequest_def Let_def clearTimeout_def split: option.splits)

lemma clearPendingRequest_table:
  "map_of (pendingRequests s) k = Some a \<Longrightarrow>
     pendingRequests (clearPendingRequest k s) = AList.delete k (pendingRequests s)"
  by (auto simp: clearPendingRequest_def Let_def clearTimeout_def split: option.splits)

text \<open>An entry leaves the table and its promise is settled.\<close>

lemma inv_remove:
  assumes "protocol_inv s" and "map_of (pendingRequests s) k = Some a"
  shows "protocol_inv (settle (pr_promise (heap s a)) out (clearPendingRequest k s))"
proof -
  let ?s1 = "clearPendingRequest k s"
  let ?p = "pr_promise (heap s a)"
  have mem: "(k, a) \<in> set (pendingRequests s)"
    using assms(2) by (rule map_of_SomeD)
  have tbl: "pendingRequests ?s1 = AList.delete k (pendingRequests s)"
    using assms(2) by (rule clearPendingRequest_table)
  have other: "pr_promise (heap s (snd e)) \<noteq> ?p"
    if "e \<in> set (AList.delete k (pendingRequests s))" for e
  proof
    assume eq: "pr_promise (heap s (snd e)) = ?p"
    have "e \<in> set (pendingRequests s)" "fst e \<noteq> k"
      using that by (auto simp: set_delete_eq)
    moreover have "e = (k, a)"
      using assms(1) mem eq \<open>e \<in> set (pendingRequests s)\<close>
      unfolding protocol_inv_def by (metis snd_conv)
    ultimately show False by simp
  qed
  have plt: "?p < nextPromise s"
    using assms(1) mem unfolding protocol_inv_def by fastforce
  show ?thesis
    unfolding protocol_inv_def
  proof (intro conjI)
    show "distinct (map fst (pendingRequests (settle ?p out ?s1)))"
      using assms(1) by (simp add: settle_def tbl protocol_inv_def AList.distinct_delete)
    show "\<forall>e\<in>set (pendingRequests (settle ?p out ?s1)).
         snd e < nextAddr (settle ?p out ?s1) \<and> pr_id (heap (settle ?p out ?s1) (snd e)) = fst e
       \<and> pr_promise (heap (settle ?p out ?s1) (snd e)) < nextPromise (settle ?p out ?s1)
       \<and> settled (settle ?p out ?s1) (pr_promise (heap (settle ?p out ?s1) (snd e))) = None"
      using assms(1) other
      by (auto simp: settle_def tbl clearPendingRequest_fields protocol_inv_def set_delete_eq)
    show "\<forall>e1\<in>set (pendingRequests (settle ?p out ?s1)).
          \<forall>e2\<in>set (pendingRequests (settle ?p out ?s1)).
         pr_promise (heap (settle ?p out ?s1) (snd e1))
           = pr_promise (heap (settle ?p out ?s1) (snd e2)) \<longrightarrow> e1 = e2"
      using assms(1)
      by (simp add: settle_def tbl clearPendingRequest_fields protocol_inv_def set_delete_eq)
    show "\<forall>p\<ge>nextPromise (settle ?p out ?s1). settled (settle ?p out ?s1) p = None"
      using assms(1) plt
      by (auto simp: settle_def clearPendingRequest_fields protocol_inv_def)
    show "\<forall>t\<in>set (timers (settle ?p out ?s1)). fst t < nextHandle (settle ?p out ?s1)"
    proof
      fix t assume "t \<in> set (timers (settle ?p out ?s1))"
      then have "t \<in> set (timers s)"
        using clearPendingRequest_fields(9)[of k s] by (auto simp: settle_def split: if_splits)
      then show "fst t < nextHandle (settle ?p out ?s1)"
        using assms(1) by (simp add: settle_def clearPendingRequest_fields(5) protocol_inv_def)
    qed
    show "\<forall>e\<in>set (pendingRequests (settle ?p out ?s1)). \<forall>h.
         pr_timeout (heap (settle ?p out ?s1) (snd e)) = Some h
           \<longrightarrow> h < nextHandle (settle ?p out ?s1)"
      using assms(1)
      by (fastforce simp: settle_def tbl clearPendingRequest_fields protocol_inv_def
            set_delete_eq)
  qed
qed

lemma inv_handleResponse:
  assumes "protocol_inv s" shows "protocol_inv (handleResponse m s)"
  using assms
  by (auto simp: handleResponse_def Let_def clearPendingRequest_fields(1)
        intro!: inv_emit inv_remove split: option.splits)

lemma inv_handleFailure:
  assumes "protocol_inv s" shows "protocol_inv (handleFailure m s)"
  using assms
  by (auto simp: handleFailure_def Let_def clearPendingRequest_fields(1)
        intro!: inv_emit inv_remove inv_retryRequest split: option.splits)

lemma inv_handleTimeout:
  assumes "protocol_inv s" shows "protocol_inv (handleTimeout k s)"
  using assms
  by (auto simp: handleTimeout_def Let_def clearPendingRequest_fields(1)
        intro!: inv_emit inv_remove inv_retryRequest split: option.splits)

lemma inv_cancelRequest:
  assumes "protocol_inv s" shows "protocol_inv (snd (cancelRequest k s))"
  using assms
  by (auto simp: cancelRequest_def Let_def clearPendingRequest_fields(1)
        intro!: inv_emit inv_remove split: option.splits)

lemma inv_cancel_list:
  "protocol_inv s \<Longrightarrow> protocol_inv (foldl (\<lambda>s' k. snd (cancelRequest k s')) s ks)"
  by (induction ks arbitrary: s) (simp_all add: inv_cancelRequest)

lemma inv_cancelAllRequests:
  "protocol_inv s \<Longrightarrow> protocol_inv (cancelAllRequests s)"
  by (simp add: cancelAllRequests_def inv_cancel_list)

lemma inv_handleMessageWithConversation:
  "protocol_inv s \<Longrightarrow> protocol_inv (handleMessageWithConversation m c s)"
  by (simp add: handleMessageWithConversation_def handleRequest_def inv_handleResponse
        inv_handleFailure inv_emit)

lemma inv_handleMessage:
  "protocol_inv s \<Longrightarrow> handleMessage uuid m s = Inr s' \<Longrightarrow> protocol_inv s'"
  by (auto simp: handleMessage_def inv_handleResponse inv_handleFailure
        split: sum.splits if_splits)

lemma inv_expire:
  assumes "protocol_inv s" shows "protocol_inv (expire h due s)"
  by (rule inv_frame[OF assms]) (use assms in \<open>auto simp: expire_def protocol_inv_def\<close>)

lemma inv_fire:
  assumes "protocol_inv s" shows "protocol_inv (fire h s)"
  using inv_expire[OF assms]
  by (auto simp: fire_def Let_def inv_handleTimeout inv_retryRequest_resume assms
        split: option.splits callback.splits)

lemma inv_initiateRequest:
  assumes "protocol_inv s" shows "protocol_inv (snd (initiateRequest m c opts s))"
proof (cases "m_performative m = ''request''")
  case False
  then have eq: "snd (initiateRequest m c opts s)
     = settle (nextPromise s) (Rejected (InvalidArgument
               (''Message must have performative '' @ [CHR 0x22] @ ''request'' @ [CHR 0x22])))
         (s\<lparr> nextPromise := Suc (nextPromise s) \<rparr>)"
    by (simp add: initiateRequest_def Let_def)
  show ?thesis
    unfolding eq using assms
    by (auto simp: protocol_inv_def settle_def less_Suc_eq)
next
  case True
  define a where "a = nextAddr s"
  define p where "p = nextPromise s"
  obtain s' where s': "s' = snd (initiateRequest m c opts s)" by simp
  have tbl: "pendingRequests s' = AList.update (m_id m) a (pendingRequests s)"
    and na: "nextAddr s' = Suc a" and np: "nextPromise s' = Suc p"
    and st: "settled s' = settled s"
    and hp_new: "pr_id (heap s' a) = m_id m" "pr_promise (heap s' a) = p"
    and hp_old: "\<And>b. b \<noteq> a \<Longrightarrow> heap s' b = heap s b"
    and tm: "\<forall>t\<in>set (timers s'). fst t < nextHandle s'"
    and hn: "\<forall>h. pr_timeout (heap s' a) = Some h \<longrightarrow> h < nextHandle s'"
    and nh: "nextHandle s \<le> nextHandle s'"
    using True assms unfolding s' a_def p_def
    by (auto simp: initiateRequest_def Let_def setTimeout_def emit_def protocol_inv_def
          less_Suc_eq split: prod.splits)
  have old: "e \<in> set (pendingRequests s) \<Longrightarrow>
        snd e < a \<and> heap s' (snd e) = heap s (snd e) \<and> pr_id (heap s (snd e)) = fst e
        \<and> pr_promise (heap s (snd e)) < p \<and> settled s (pr_promise (heap s (snd e))) = None" for e
    using assms hp_old[of "snd e"] unfolding protocol_inv_def a_def p_def by fastforce
  have old_h: "e \<in> set (pendingRequests s) \<Longrightarrow> pr_timeout (heap s (snd e)) = Some h
        \<Longrightarrow> h < nextHandle s" for e h
    using assms unfolding protocol_inv_def by blast
  have cases: "e = (m_id m, a) \<or> e \<in> set (pendingRequests s)"
    if "e \<in> set (pendingRequests s')" for e
    using that set_update_subset[of "m_id m" a "pendingRequests s"] unfolding tbl by auto
  have fresh: "settled s p = None"
    using assms unfolding protocol_inv_def p_def by simp
  have "protocol_inv s'"
    unfolding protocol_inv_def
  proof (intro conjI ballI allI impI)
    show "distinct (map fst (pendingRequests s'))"
      using assms by (simp add: tbl protocol_inv_def AList.distinct_update)
  next
    fix e assume "e \<in> set (pendingRequests s')"
    then show "snd e < nextAddr s'" "pr_id (heap s' (snd e)) = fst e"
      "pr_promise (heap s' (snd e)) < nextPromise s'"
      "settled s' (pr_promise (heap s' (snd e))) = None"
      using cases[of e] old[of e] hp_new fresh by (auto simp: na np st)
  next
    fix e1 e2
    assume "e1 \<in> set (pendingRequests s')" "e2 \<in> set (pendingRequests s')"
      and eq: "pr_promise (heap s' (snd e1)) = pr_promise (heap s' (snd e2))"
    then consider "e1 = (m_id m, a)" "e2 = (m_id m, a)"
      | "e1 = (m_id m, a)" "e2 \<in> set (pendingRequests s)"
      | "e1 \<in> set (pendingRequests s)" "e2 = (m_id m, a)"
      | "e1 \<in> set (pendingRequests s)" "e2 \<in> set (pendingRequests s)"
      using cases by blast
    then show "e1 = e2"
    proof cases
      case 1 then show ?thesis by simp
    next
      case 2 then show ?thesis using eq old[of e2] hp_new by auto
    next
      case 3 then show ?thesis using eq old[of e1] hp_new by auto
    next
      case 4
      then show ?thesis
        using eq old[of e1] old[of e2] assms unfolding protocol_inv_def by metis
    qed
  next
    fix q assume "nextPromise s' \<le> q"
    then show "settled s' q = None"
      using assms unfolding protocol_inv_def np st p_def by simp
  next
    fix t assume "t \<in> set (timers s')"
    then show "fst t < nextHandle s'" using tm by blast
  next
    fix e h assume "e \<in> set (pendingRequests s')" "pr_timeout (heap s' (snd e)) = Some h"
    then show "h < nextHandle s'"
      using cases[of e] old[of e] old_h[of e h] hn nh by auto
  qed
  then show ?thesis unfolding s' .
qed

lemma inv_step: "protocol_inv s \<Longrightarrow> protocol_inv (step act s)"
proof (cases act)
  case (HandleMessage uuid m)
  assume "protocol_inv s"
  then show ?thesis
    using HandleMessage inv_handleMessage[of s uuid m]
    by (auto split: sum.splits)
next
  case (Advance d)
  assume i: "protocol_inv s"
  show ?thesis unfolding Advance step.simps
    by (rule inv_frame[OF i]) (use i in \<open>auto simp: protocol_inv_def\<close>)
qed (simp_all add: inv_initiateRequest inv_handleMessageWithConversation inv_cancelRequest
       inv_cancelAllRequests inv_fire)

lemma reachable_inv: "reachable s \<Longrightarrow> protocol_inv s"
  by (induction rule: reachable.induct) (simp_all add: inv_new inv_step)

section \<open>RequestResponseProtocol: the effect of the operations\<close>

lemmas protocol_defs = RequestResponseProtocol_new_def initiateRequest_def setTimeout_def
  clearTimeout_def emit_def settle_def clearPendingRequest_def handleResponse_def
  handleFailure_def handleTimeout_def retryRequest_def retryRequest_resume_def
  handleMessageWithConversation_def handleRequest_def cancelRequest_def fire_def expire_def
  or_num_def or_str_def truthy_str_def timer_delay_def Let_def

lemmas ex_defs = ex_pending_def ex_call_options_def ex_request_def ex_message_def

lemma Message_new_of_valid:
  assumes "validate m = None"
  shows "\<exists>im. Message_new uuid now
             \<lparr> mo_id = Some (m_id m), mo_timestamp = Some (m_timestamp m),
               mo_conversationId = m_conversationId m, mo_performative = m_performative m,
               mo_sender = m_sender m, mo_receiver = m_receiver m, mo_content = m_content m,
               mo_contentType = m_contentType m, mo_inReplyTo = m_inReplyTo m,
               mo_language = m_language m, mo_encoding = m_encoding m,
               mo_ontology = m_ontology m, mo_metadata = m_metadata m \<rparr> = Inr im
          \<and> m_inReplyTo im = m_inReplyTo m"
proof -
  have "m_performative m \<noteq> [] \<and> m_sender m \<noteq> [] \<and> m_receiver m \<noteq> One []
        \<and> m_receiver m \<noteq> Many []"
    using assms by (simp add: validate_def split: if_splits)
  then show ?thesis
    by (simp add: Message_new_def validate_def Let_def)
qed

subsection \<open>Removal of an entry\<close>

lemma settle_remove_effect:
  assumes "protocol_inv s" and "map_of (pendingRequests s) k = Some a"
  shows "pendingRequests (settle (pr_promise (heap s a)) out (clearPendingRequest k s))
           = AList.delete k (pendingRequests s)"
    and "settled (settle (pr_promise (heap s a)) out (clearPendingRequest k s))
           = (settled s)(pr_promise (heap s a) \<mapsto> out)"
    and "timers (settle (pr_promise (heap s a)) out (clearPendingRequest k s))
           = filter (\<lambda>t. Some (fst t) \<noteq> pr_timeout (heap s a)) (timers s)"
    and "heap (settle (pr_promise (heap s a)) out (clearPendingRequest k s)) = heap s"
    and "emitted (settle (pr_promise (heap s a)) out (clearPendingRequest k s)) = emitted s"
proof -
  have "(k, a) \<in> set (pendingRequests s)"
    using assms(2) by (rule map_of_SomeD)
  then have u: "settled s (pr_promise (heap s a)) = None"
    using assms(1) unfolding protocol_inv_def by fastforce
  show "pendingRequests (settle (pr_promise (heap s a)) out (clearPendingRequest k s))
           = AList.delete k (pendingRequests s)"
    using assms(2) by (simp add: settle_def clearPendingRequest_table)
  show "settled (settle (pr_promise (heap s a)) out (clearPendingRequest k s))
           = (settled s)(pr_promise (heap s a) \<mapsto> out)"
    using u by (simp add: settle_def clearPendingRequest_fields)
  show "timers (settle (pr_promise (heap s a)) out (clearPendingRequest k s))
           = filter (\<lambda>t. Some (fst t) \<noteq> pr_timeout (heap s a)) (timers s)"
    using assms(2)
    by (auto simp: settle_def clearPendingRequest_def clearTimeout_def Let_def
          split: option.splits)
  show "heap (settle (pr_promise (heap s a)) out (clearPendingRequest k s)) = heap s"
    by (simp add: settle_def clearPendingRequest_fields)
  show "emitted (settle (pr_promise (heap s a)) out (clearPendingRequest k s)) = emitted s"
    by (simp add: settle_def clearPendingRequest_fields)
qed

lemma map_of_delete_same: "map_of (AList.delete k al) k = None"
  by (simp add: AList.delete_conv')

lemma reachable_run: "reachable s \<Longrightarrow> reachable (run acts s)"
  unfolding run_def
  by (induction acts arbitrary: s) (simp_all add: reachable_step)

lemma reachable_ex_pending: "reachable (ex_pending d opts)"
  unfolding ex_pending_def
  using reachable_step[OF reachable_new, of "InitiateRequest ex_request 0 opts"] by simp

subsection \<open>Retry\<close>

lemma retryRequest_effect:
  "pendingRequests (retryRequest a s) = pendingRequests s"
  "settled (retryRequest a s) = settled s"
  "emitted (retryRequest a s) = emitted s"
  "clock (retryRequest a s) = clock s"
  "defaultTimeout (retryRequest a s) = defaultTimeout s"
  "nextHandle (retryRequest a s) = Suc (nextHandle s)"
  "heap (retryRequest a s) = (heap s)(a := (heap s a)\<lparr> pr_retries := pr_retries (heap s a) + 1 \<rparr>)"
  "timers (retryRequest a s)
     = filter (\<lambda>t. Some (fst t) \<noteq> pr_timeout (heap s a)) (timers s)
       @ [(nextHandle s, clock s + timer_delay (pr_retryDelay (heap s a)), RetryResumeCb a)]"
  by (auto simp: retryRequest_def Let_def setTimeout_def clearTimeout_def split: option.splits)

lemma retryRequest_resume_effect:
  assumes "0 < defaultTimeout s"
  shows "pendingRequests (retryRequest_resume a s) = pendingRequests s"
    and "settled (retryRequest_resume a s) = settled s"
    and "heap (retryRequest_resume a s)
           = (heap s)(a := (heap s a)\<lparr> pr_timeout := Some (nextHandle s) \<rparr>)"
    and "timers (retryRequest_resume a s)
           = timers s @ [(nextHandle s, clock s + timer_delay (defaultTimeout s), DeadlineCb (pr_id (heap s a)))]"
    and "emitted (retryRequest_resume a s)
           = emitted s @ [Ev_requestRetry (pr_message (heap s a)) (pr_retries (heap s a))]"
  using assms
  by (simp_all add: retryRequest_resume_def Let_def setTimeout_def emit_def)

lemma find_fresh_last:
  assumes "\<forall>t\<in>set xs. fst t \<noteq> h"
  shows "find (\<lambda>t. fst t = h) (xs @ [(h, d, cb)]) = Some (h, d, cb)"
    and "filter (\<lambda>t. fst t \<noteq> h) (xs @ [(h, d, cb)]) = xs"
  using assms by (induction xs) auto

lemma fire_retry_timer:
  assumes "protocol_inv s"
  shows "fire (nextHandle s) (retryRequest a s)
       = retryRequest_resume a
           ((retryRequest a s)
              \<lparr> timers := filter (\<lambda>t. Some (fst t) \<noteq> pr_timeout (heap s a)) (timers s),
                clock := max (clock s) (clock s + timer_delay (pr_retryDelay (heap s a))) \<rparr>)"
proof -
  have fresh: "\<forall>t\<in>set (filter (\<lambda>t. Some (fst t) \<noteq> pr_timeout (heap s a)) (timers s)).
                 fst t \<noteq> nextHandle s"
    using assms unfolding protocol_inv_def by fastforce
  have fnd: "find (\<lambda>t. fst t = nextHandle s) (timers (retryRequest a s))
       = Some (nextHandle s, clock s + timer_delay (pr_retryDelay (heap s a)), RetryResumeCb a)"
    unfolding retryRequest_effect(8) by (rule find_fresh_last(1)[OF fresh])
  have flt: "filter (\<lambda>t. fst t \<noteq> nextHandle s) (timers (retryRequest a s))
       = filter (\<lambda>t. Some (fst t) \<noteq> pr_timeout (heap s a)) (timers s)"
    unfolding retryRequest_effect(8) by (rule find_fresh_last(2)[OF fresh])
  show ?thesis
    unfolding fire_def fnd expire_def flt by (simp add: retryRequest_effect(4))
qed

lemma timer_delay_pos: "0 < timer_delay d"
  by (simp add: timer_delay_def)

lemma found_timer:
  assumes "find (\<lambda>t. fst t = h) ts = Some tm"
  shows "tm \<in> set ts \<and> fst tm = h"
  using assms by (auto simp: find_Some_iff)

lemma retryRequest_retry_effect:
  assumes "protocol_inv u"
    and "map_of (pendingRequests u) k = Some a"
    and "0 < defaultTimeout u"
    and "sole_timer u k a"
  shows "retry_effect a k u (retryRequest a u)"
proof -
  have mem: "(k, a) \<in> set (pendingRequests u)"
    using assms(2) by (rule map_of_SomeD)
  have idk: "pr_id (heap u a) = k"
    using assms(1) mem unfolding protocol_inv_def by fastforce
  have hlt: "h < nextHandle u" if "pr_timeout (heap u a) = Some h" for h
    using assms(1) mem that unfolding protocol_inv_def by fastforce
  have cleared: "\<forall>h. pr_timeout (heap u a) = Some h
                   \<longrightarrow> h \<notin> fst ` set (timers (retryRequest a u))"
    using hlt by (auto simp: retryRequest_effect)
  let ?kept = "filter (\<lambda>t. Some (fst t) \<noteq> pr_timeout (heap u a)) (timers u)"
  have nd: "filter (\<lambda>t. snd (snd t) = DeadlineCb k) ?kept = []"
    using assms(4) unfolding sole_timer_def deadline_timers_def
    by (fastforce simp: filter_empty_conv)
  have nr: "filter (\<lambda>t. snd (snd t) = RetryResumeCb a) ?kept = []"
    using assms(4) unfolding sole_timer_def retry_timers_def
    by (auto simp: filter_empty_conv)
  define v where "v = (retryRequest a u)
              \<lparr> timers := ?kept,
                clock := max (clock u) (clock u + timer_delay (pr_retryDelay (heap u a))) \<rparr>"
  have mx: "max (clock u) (clock u + timer_delay (pr_retryDelay (heap u a)))
              = clock u + timer_delay (pr_retryDelay (heap u a))"
    using timer_delay_pos[of "pr_retryDelay (heap u a)"] by simp
  have vf: "timers v = ?kept"
      "clock v = clock u + timer_delay (pr_retryDelay (heap u a))"
      "heap v = (heap u)(a := (heap u a)\<lparr> pr_retries := pr_retries (heap u a) + 1 \<rparr>)"
      "nextHandle v = Suc (nextHandle u)" "defaultTimeout v = defaultTimeout u"
      "pendingRequests v = pendingRequests u" "settled v = settled u" "emitted v = emitted u"
    unfolding v_def mx by (simp_all add: retryRequest_effect)
  have dv: "0 < defaultTimeout v"
    using assms(3) by (simp add: vf)
  note r = retryRequest_resume_effect[OF dv, of a, unfolded vf]
  have s2: "fire (nextHandle u) (retryRequest a u) = retryRequest_resume a v"
    unfolding v_def by (rule fire_retry_timer[OF assms(1)])
  show ?thesis
    unfolding retry_effect_def Let_def s2 sole_timer_def deadline_timers_def retry_timers_def
    using cleared nd nr
    by (simp add: r retryRequest_effect idk)
qed

lemma sole_timer_expire:
  assumes "sole_timer s k a"
    and "find (\<lambda>t. fst t = h) (timers s) = Some (h, due, DeadlineCb k)"
  shows "sole_timer (expire h due s) k a"
proof -
  have "(h, due, DeadlineCb k) \<in> set (timers s)"
    using found_timer[OF assms(2)] by simp
  then have "pr_timeout (heap s a) = Some h"
    using assms(1) unfolding sole_timer_def deadline_timers_def by fastforce
  then show ?thesis
    using assms(1) unfolding sole_timer_def deadline_timers_def retry_timers_def expire_def
    by (auto simp: filter_empty_conv)
qed

subsection \<open>The default timeout\<close>

lemma cancelRequest_defaultTimeout:
  "defaultTimeout (snd (cancelRequest k s)) = defaultTimeout s"
  by (simp add: cancelRequest_def Let_def emit_def settle_def clearPendingRequest_fields
        split: option.splits)

lemma cancel_list_defaultTimeout:
  "defaultTimeout (foldl (\<lambda>s' k. snd (cancelRequest k s')) s ks) = defaultTimeout s"
  by (induction ks arbitrary: s) (simp_all add: cancelRequest_defaultTimeout)

lemma retryRequest_resume_defaultTimeout:
  "defaultTimeout (retryRequest_resume a s) = defaultTimeout s"
  by (simp add: retryRequest_resume_def Let_def setTimeout_def emit_def)

lemma handleResponse_defaultTimeout:
  "defaultTimeout (handleResponse m s) = defaultTimeout s"
  by (simp add: handleResponse_def Let_def emit_def settle_def clearPendingRequest_fields
        split: option.splits)

lemma handleFailure_defaultTimeout:
  "defaultTimeout (handleFailure m s) = defaultTimeout s"
  by (simp add: handleFailure_def Let_def emit_def settle_def clearPendingRequest_fields
        retryRequest_effect split: option.splits)

lemma handleTimeout_defaultTimeout:
  "defaultTimeout (handleTimeout k s) = defaultTimeout s"
  by (simp add: handleTimeout_def Let_def emit_def settle_def clearPendingRequest_fields
        retryRequest_effect split: option.splits)

lemma step_defaultTimeout: "defaultTimeout (step act s) = defaultTimeout s"
proof (cases act)
  case (InitiateRequest m c opts)
  then show ?thesis
    by (simp add: initiateRequest_def Let_def setTimeout_def emit_def settle_def
          split: prod.splits)
next
  case (HandleMessage uuid m)
  then show ?thesis
    by (simp add: handleMessage_def handleResponse_defaultTimeout handleFailure_defaultTimeout
          split: sum.splits)
next
  case (HandleMessageWithConversation m c)
  then show ?thesis
    by (simp add: handleMessageWithConversation_def handleRequest_def emit_def
          handleResponse_defaultTimeout handleFailure_defaultTimeout)
next
  case (CancelRequest k)
  then show ?thesis by (simp add: cancelRequest_defaultTimeout)
next
  case CancelAllRequests
  then show ?thesis by (simp add: cancelAllRequests_def cancel_list_defaultTimeout)
next
  case (Fire h)
  then show ?thesis
    by (simp add: fire_def Let_def expire_def handleTimeout_defaultTimeout
          retryRequest_resume_defaultTimeout split: option.splits callback.splits)
next
  case (Advance d)
  then show ?thesis by simp
qed

section \<open>RequestResponseProtocol: the timers of the pending entries\<close>


























section \<open>RequestResponseProtocol: replies, cancellation, retries\<close>

text \<open>
  C8. An inbound message with performative \<open>inform\<close> or \<open>failure\<close> whose
  \<open>inReplyTo\<close> names no pending entry (or is absent) is dropped: \<open>handleResponse\<close>,
  \<open>handleFailure\<close> and \<open>handleMessageWithConversation\<close> return the state they were
  given, so no promise is settled, nothing is emitted and the table is as before; nothing
  is thrown. \<open>handleMessage\<close> does the same for every object that passes the checks of
  the \<open>Message\<close> constructor, which every \<open>Message\<close> does.
\<close>

theorem unmatched_reply_dropped:
  assumes "m_performative m = ''inform'' \<or> m_performative m = ''failure''"
    and "\<forall>k. m_inReplyTo m = Some k \<longrightarrow> map_of (pendingRequests s) k = None"
  shows "handleResponse m s = s \<and> handleFailure m s = s
       \<and> handleMessageWithConversation m c s = s
       \<and> (validate m = None \<longrightarrow> handleMessage uuid m s = Inr s)"
proof -
  have r: "handleResponse m' s = s" and f: "handleFailure m' s = s"
    if "m_inReplyTo m' = m_inReplyTo m" for m'
    using assms(2) that
    by (auto simp: handleResponse_def handleFailure_def truthy_str_def split: option.splits)
  have w: "handleMessageWithConversation m c s = s"
    using assms(1) r[of m] f[of m] by (auto simp: handleMessageWithConversation_def)
  have h: "handleMessage uuid m s = Inr s" if v: "validate m = None"
  proof -
    obtain im where im: "Message_new uuid (clock s)
             \<lparr> mo_id = Some (m_id m), mo_timestamp = Some (m_timestamp m),
               mo_conversationId = m_conversationId m, mo_performative = m_performative m,
               mo_sender = m_sender m, mo_receiver = m_receiver m, mo_content = m_content m,
               mo_contentType = m_contentType m, mo_inReplyTo = m_inReplyTo m,
               mo_language = m_language m, mo_encoding = m_encoding m,
               mo_ontology = m_ontology m, mo_metadata = m_metadata m \<rparr> = Inr im"
        and "m_inReplyTo im = m_inReplyTo m"
      using Message_new_of_valid[OF v] by blast
    then show ?thesis
      using r[of im] f[of im] by (simp add: handleMessage_def)
  qed
  show ?thesis using r[of m] f[of m] w h by simp
qed

text \<open>The theorem at a failure reply to \<open>gone\<close> while only \<open>r1\<close> is pending.\<close>

theorem unmatched_reply_dropped_witness:
  "(m_performative (ex_message ''x1'' ''failure'' (Some ''gone'')) = ''inform''
      \<or> m_performative (ex_message ''x1'' ''failure'' (Some ''gone'')) = ''failure'')
   \<and> map_of (pendingRequests (ex_pending None (ex_call_options None None))) ''gone'' = None
   \<and> map_of (pendingRequests (ex_pending None (ex_call_options None None))) ''r1'' = Some 0
   \<and> validate (ex_message ''x1'' ''failure'' (Some ''gone'')) = None
   \<and> handleMessageWithConversation (ex_message ''x1'' ''failure'' (Some ''gone'')) 0
        (ex_pending None (ex_call_options None None)) = ex_pending None (ex_call_options None None)
   \<and> handleMessage ''u'' (ex_message ''x1'' ''failure'' (Some ''gone''))
        (ex_pending None (ex_call_options None None))
       = Inr (ex_pending None (ex_call_options None None))"
proof -
  have h1: "m_performative (ex_message ''x1'' ''failure'' (Some ''gone'')) = ''inform''
      \<or> m_performative (ex_message ''x1'' ''failure'' (Some ''gone'')) = ''failure''"
    by (simp add: ex_message_def)
  have t: "pendingRequests (ex_pending None (ex_call_options None None)) = [(''r1'', 0)]"
    by (simp add: ex_defs protocol_defs)
  have h2: "\<forall>k. m_inReplyTo (ex_message ''x1'' ''failure'' (Some ''gone'')) = Some k
      \<longrightarrow> map_of (pendingRequests (ex_pending None (ex_call_options None None))) k = None"
    by (simp add: t ex_message_def)
  have v: "validate (ex_message ''x1'' ''failure'' (Some ''gone'')) = None"
    by (simp add: validate_def ex_message_def)
  show ?thesis
    using h1 v unmatched_reply_dropped [OF h1 h2, of 0 "''u''"] by (simp add: t)
qed

subsection \<open>Cancellation\<close>

text \<open>
  What one call of \<open>cancelRequest\<close> does, in every reachable state. It returns true
  exactly when the id has a pending entry. Then the entry is deleted, the timer whose
  handle the entry holds is cleared, the promise of the entry is rejected with the error
  \<open>Request cancelled\<close>, and \<open>requestCancelled\<close> is emitted. With no entry for the id
  it returns false and the state is unchanged; so a cancellation that follows a
  cancellation of the same id returns false. The timer of a retry delay that is running
  for the entry is not the timer whose handle the entry holds, and it stays.
\<close>

lemma cancelRequest_effect:
  assumes "reachable s"
  shows "(fst (cancelRequest k s) \<longleftrightarrow> map_of (pendingRequests s) k \<noteq> None)
       \<and> (map_of (pendingRequests s) k = None \<longrightarrow> cancelRequest k s = (False, s))
       \<and> (\<forall>a. map_of (pendingRequests s) k = Some a \<longrightarrow>
            pendingRequests (snd (cancelRequest k s)) = AList.delete k (pendingRequests s)
          \<and> map_of (pendingRequests (snd (cancelRequest k s))) k = None
          \<and> timers (snd (cancelRequest k s))
              = filter (\<lambda>t. Some (fst t) \<noteq> pr_timeout (heap s a)) (timers s)
          \<and> settled (snd (cancelRequest k s))
              = (settled s)(pr_promise (heap s a) \<mapsto>
                   Rejected (RequestCancelled ''Request cancelled''))
          \<and> emitted (snd (cancelRequest k s))
              = emitted s @ [Ev_requestCancelled (pr_message (heap s a))])
       \<and> fst (cancelRequest k (snd (cancelRequest k s))) = False"
proof -
  note i = reachable_inv[OF assms]
  have none: "cancelRequest k s = (False, s)" if "map_of (pendingRequests s) k = None"
    using that by (simp add: cancelRequest_def)
  have some: "pendingRequests (snd (cancelRequest k s)) = AList.delete k (pendingRequests s)
          \<and> map_of (pendingRequests (snd (cancelRequest k s))) k = None
          \<and> timers (snd (cancelRequest k s))
              = filter (\<lambda>t. Some (fst t) \<noteq> pr_timeout (heap s a)) (timers s)
          \<and> settled (snd (cancelRequest k s))
              = (settled s)(pr_promise (heap s a) \<mapsto>
                   Rejected (RequestCancelled ''Request cancelled''))
          \<and> emitted (snd (cancelRequest k s))
              = emitted s @ [Ev_requestCancelled (pr_message (heap s a))]
          \<and> fst (cancelRequest k s)"
    if "map_of (pendingRequests s) k = Some a" for a
    using that settle_remove_effect[OF i that, of "Rejected (RequestCancelled ''Request cancelled'')"]
    by (simp add: cancelRequest_def Let_def emit_def clearPendingRequest_fields(1)
          map_of_delete_same)
  have again: "fst (cancelRequest k (snd (cancelRequest k s))) = False"
  proof (cases "map_of (pendingRequests s) k")
    case None
    then show ?thesis using none by simp
  next
    case (Some a)
    then have "map_of (pendingRequests (snd (cancelRequest k s))) k = None"
      using some by blast
    then show ?thesis by (simp add: cancelRequest_def)
  qed
  show ?thesis
    using none some again by (cases "map_of (pendingRequests s) k") auto
qed

text \<open>The lemma at the pending request \<open>r1\<close> and at the unknown id \<open>r2\<close>.\<close>

lemma cancelRequest_effect_example:
  "reachable (ex_pending None (ex_call_options None None))
   \<and> map_of (pendingRequests (ex_pending None (ex_call_options None None))) ''r1'' = Some 0
   \<and> fst (cancelRequest ''r1'' (ex_pending None (ex_call_options None None)))
   \<and> pendingRequests (snd (cancelRequest ''r1'' (ex_pending None (ex_call_options None None)))) = []
   \<and> timers (snd (cancelRequest ''r1'' (ex_pending None (ex_call_options None None)))) = []
   \<and> settled (snd (cancelRequest ''r1'' (ex_pending None (ex_call_options None None)))) 0
       = Some (Rejected (RequestCancelled ''Request cancelled''))
   \<and> emitted (snd (cancelRequest ''r1'' (ex_pending None (ex_call_options None None))))
       = [Ev_requestInitiated ex_request 0, Ev_requestCancelled ex_request]
   \<and> \<not> fst (cancelRequest ''r1''
              (snd (cancelRequest ''r1'' (ex_pending None (ex_call_options None None)))))
   \<and> map_of (pendingRequests (ex_pending None (ex_call_options None None))) ''r2'' = None
   \<and> cancelRequest ''r2'' (ex_pending None (ex_call_options None None))
       = (False, ex_pending None (ex_call_options None None))"
proof -
  let ?s = "ex_pending None (ex_call_options None None)"
  have h: "reachable ?s" by (rule reachable_ex_pending)
  have f: "pendingRequests ?s = [(''r1'', 0)]" "timers ?s = [(0, 30000, DeadlineCb ''r1'')]"
      "pr_timeout (heap ?s 0) = Some 0" "pr_promise (heap ?s 0) = 0"
      "pr_message (heap ?s 0) = ex_request" "settled ?s = (\<lambda>_. None)"
      "emitted ?s = [Ev_requestInitiated ex_request 0]"
    by (simp_all add: ex_pending_def ex_call_options_def protocol_defs)
      (simp_all add: ex_request_def ex_message_def)
  have l: "map_of (pendingRequests ?s) ''r1'' = Some 0" "map_of (pendingRequests ?s) ''r2'' = None"
    by (simp_all add: f)
  show ?thesis
    using h l cancelRequest_effect [OF h, of "''r1''"] cancelRequest_effect [OF h, of "''r2''"]
    by (simp add: f)
qed

text \<open>
  C9, at a request that is cancelled while its retry delay runs: \<open>r1\<close> is initiated with
  timeout 50 on a default instance, its deadline fires at 50 and starts a retry, and
  \<open>cancelRequest\<close> is called before the retry delay of 1000 is over. The call returns
  true, deletes the entry, rejects the promise with \<open>Request cancelled\<close> and emits
  \<open>requestCancelled\<close>; the handle the entry holds is of the deadline timer that has
  fired, so nothing is cleared, and the timer of the retry delay stays active. When it
  fires at 1050 the suspended \<open>retryRequest\<close> call goes on: \<open>requestRetry\<close> is emitted
  for the cancelled request, and a deadline timer for its id is armed, due at 31050,
  though the table is empty.
\<close>

theorem cancel_during_retry_delay:
  "reachable ex_retrying
   \<and> map_of (pendingRequests ex_retrying) ''r1'' = Some 0
   \<and> timers ex_retrying = [(1, 1050, RetryResumeCb 0)]
   \<and> fst (cancelRequest ''r1'' ex_retrying)
   \<and> pendingRequests ex_cancelled_retrying = []
   \<and> settled ex_cancelled_retrying 0 = Some (Rejected (RequestCancelled ''Request cancelled''))
   \<and> emitted ex_cancelled_retrying
       = [Ev_requestInitiated ex_request 0, Ev_requestCancelled ex_request]
   \<and> timers ex_cancelled_retrying = [(1, 1050, RetryResumeCb 0)]
   \<and> pendingRequests (fire 1 ex_cancelled_retrying) = []
   \<and> emitted (fire 1 ex_cancelled_retrying)
       = [Ev_requestInitiated ex_request 0, Ev_requestCancelled ex_request,
          Ev_requestRetry ex_request 1]
   \<and> timers (fire 1 ex_cancelled_retrying) = [(2, 31050, DeadlineCb ''r1'')]"
proof -
  have h: "reachable ex_retrying"
    unfolding ex_retrying_def by (rule reachable_run[OF reachable_new])
  have a: "map_of (pendingRequests ex_retrying) ''r1'' = Some 0"
      "timers ex_retrying = [(1, 1050, RetryResumeCb 0)]"
      "fst (cancelRequest ''r1'' ex_retrying)"
    by (simp_all add: ex_retrying_def run_def ex_call_options_def ex_request_def ex_message_def
          protocol_defs)
  have b: "pendingRequests ex_cancelled_retrying = []"
      "settled ex_cancelled_retrying 0 = Some (Rejected (RequestCancelled ''Request cancelled''))"
      "emitted ex_cancelled_retrying
         = [Ev_requestInitiated ex_request 0, Ev_requestCancelled ex_request]"
      "timers ex_cancelled_retrying = [(1, 1050, RetryResumeCb 0)]"
    by (simp_all add: ex_cancelled_retrying_def ex_retrying_def run_def ex_call_options_def
          protocol_defs)
      (simp_all add: ex_request_def ex_message_def)
  have c: "pendingRequests (fire 1 ex_cancelled_retrying) = []"
      "emitted (fire 1 ex_cancelled_retrying)
         = [Ev_requestInitiated ex_request 0, Ev_requestCancelled ex_request,
            Ev_requestRetry ex_request 1]"
      "timers (fire 1 ex_cancelled_retrying) = [(2, 31050, DeadlineCb ''r1'')]"
    by (simp_all add: ex_cancelled_retrying_def ex_retrying_def run_def ex_call_options_def
          protocol_defs)
      (simp_all add: ex_request_def ex_message_def)
  show ?thesis using h a b c by blast
qed

subsection \<open>The table and the timers\<close>




subsection \<open>The effect of a retry\<close>

text \<open>
  C2 (as amended). Let a request be pending with its retry count below its maximum, on an
  instance whose default timeout is positive, with no retry delay running for it and no
  deadline timer for its id but the one whose handle it holds (\<open>sole_timer\<close>). A failure
  reply correlated to it begins a retry, and so does the expiry of its deadline (in the
  state in which the callback of the timer runs), with the effect \<open>retry_effect\<close>: the
  retry count goes up by one, the timer whose handle the entry holds is cleared and no
  deadline timer for the id is left, and one timer for the retry delay of the entry is
  armed, due after the delay as \<open>timer_delay\<close> gives it; the table, the settled promises
  and the emitted events are as before, and the entry keeps its id, message, conversation
  and promise. When that timer fires, exactly one deadline timer for the id is armed,
  its handle is stored in the entry, no retry delay is running, and \<open>requestRetry\<close> is
  emitted with the message and the new count; nothing else is emitted, the request is not
  sent again. In whatever state the timer of a retry delay fires, on a positive default
  timeout, it arms one deadline timer for the id the object carries, stores its handle,
  emits \<open>requestRetry\<close> with the retry count of that moment, and leaves the table and the
  promises as they are.
\<close>

theorem retry_rearms_deadline:
  assumes "reachable s"
    and "map_of (pendingRequests s) k = Some a"
    and "pr_retries (heap s a) < pr_maxRetries (heap s a)"
    and "0 < defaultTimeout s"
    and "sole_timer s k a"
    and "m_performative m = ''failure''" and "m_inReplyTo m = Some k" and "k \<noteq> []"
  shows "handleMessageWithConversation m c s = retryRequest a s
       \<and> handleFailure m s = retryRequest a s
       \<and> retry_effect a k s (retryRequest a s)
       \<and> (\<forall>h due. find (\<lambda>t. fst t = h) (timers s) = Some (h, due, DeadlineCb k) \<longrightarrow>
             fire h s = retryRequest a (expire h due s)
           \<and> retry_effect a k (expire h due s) (fire h s))
       \<and> (\<forall>v h due. 0 < defaultTimeout v
             \<and> find (\<lambda>t. fst t = h) (timers v) = Some (h, due, RetryResumeCb a) \<longrightarrow>
             timers (fire h v)
               = filter (\<lambda>t. fst t \<noteq> h) (timers v)
                 @ [(nextHandle v, max (clock v) due + timer_delay (defaultTimeout v),
                     DeadlineCb (pr_id (heap v a)))]
           \<and> heap (fire h v) = (heap v)(a := (heap v a)\<lparr> pr_timeout := Some (nextHandle v) \<rparr>)
           \<and> emitted (fire h v)
               = emitted v @ [Ev_requestRetry (pr_message (heap v a)) (pr_retries (heap v a))]
           \<and> pendingRequests (fire h v) = pendingRequests v
           \<and> settled (fire h v) = settled v)"
proof -
  note i = reachable_inv[OF assms(1)]
  have f: "handleFailure m s = retryRequest a s"
    using assms by (simp add: handleFailure_def truthy_str_def)
  have w: "handleMessageWithConversation m c s = retryRequest a s"
    using assms f by (simp add: handleMessageWithConversation_def truthy_str_def)
  have e1: "retry_effect a k s (retryRequest a s)"
    using i assms(2,4,5) by (rule retryRequest_retry_effect)
  have e2: "fire h s = retryRequest a (expire h due s)
           \<and> retry_effect a k (expire h due s) (fire h s)"
    if t: "find (\<lambda>t. fst t = h) (timers s) = Some (h, due, DeadlineCb k)" for h due
  proof -
    let ?u = "expire h due s"
    have u: "pendingRequests ?u = pendingRequests s" "heap ?u = heap s"
        "defaultTimeout ?u = defaultTimeout s"
      by (simp_all add: expire_def)
    have fu: "fire h s = retryRequest a ?u"
      using t assms(2,3) by (simp add: fire_def handleTimeout_def u)
    have "retry_effect a k ?u (retryRequest a ?u)"
      using inv_expire[OF i, of h due] assms(2,4) sole_timer_expire[OF assms(5) t]
      by (intro retryRequest_retry_effect) (simp_all add: u)
    then show ?thesis using fu by simp
  qed
  have e3: "timers (fire h v)
               = filter (\<lambda>t. fst t \<noteq> h) (timers v)
                 @ [(nextHandle v, max (clock v) due + timer_delay (defaultTimeout v),
                     DeadlineCb (pr_id (heap v a)))]
           \<and> heap (fire h v) = (heap v)(a := (heap v a)\<lparr> pr_timeout := Some (nextHandle v) \<rparr>)
           \<and> emitted (fire h v)
               = emitted v @ [Ev_requestRetry (pr_message (heap v a)) (pr_retries (heap v a))]
           \<and> pendingRequests (fire h v) = pendingRequests v
           \<and> settled (fire h v) = settled v"
    if d: "0 < defaultTimeout v"
      and t: "find (\<lambda>t. fst t = h) (timers v) = Some (h, due, RetryResumeCb a)" for v h due
  proof -
    have du: "0 < defaultTimeout (expire h due v)" using d by (simp add: expire_def)
    have fv: "fire h v = retryRequest_resume a (expire h due v)"
      using t by (simp add: fire_def)
    show ?thesis
      unfolding fv using retryRequest_resume_effect[OF du, of a]
      by (simp add: expire_def)
  qed
  show ?thesis using f w e1 e2 e3 by blast
qed

text \<open>The theorem at \<open>r1\<close>, initiated with timeout 50 on a default instance: at a
  failure reply to it, at the expiry of its deadline, and at the timer of the retry
  delay that the expiry has armed.\<close>

theorem retry_rearms_deadline_witness:
  "reachable (ex_pending None (ex_call_options (Some 50) None))
   \<and> map_of (pendingRequests (ex_pending None (ex_call_options (Some 50) None))) ''r1'' = Some 0
   \<and> pr_retries (heap (ex_pending None (ex_call_options (Some 50) None)) 0)
       < pr_maxRetries (heap (ex_pending None (ex_call_options (Some 50) None)) 0)
   \<and> 0 < defaultTimeout (ex_pending None (ex_call_options (Some 50) None))
   \<and> sole_timer (ex_pending None (ex_call_options (Some 50) None)) ''r1'' 0
   \<and> find (\<lambda>t. fst t = 0) (timers (ex_pending None (ex_call_options (Some 50) None)))
       = Some (0, 50, DeadlineCb ''r1'')
   \<and> handleMessageWithConversation (ex_message ''f1'' ''failure'' (Some ''r1'')) 0
        (ex_pending None (ex_call_options (Some 50) None))
       = retryRequest 0 (ex_pending None (ex_call_options (Some 50) None))
   \<and> timers (retryRequest 0 (ex_pending None (ex_call_options (Some 50) None)))
       = [(1, 1000, RetryResumeCb 0)]
   \<and> deadline_timers (retryRequest 0 (ex_pending None (ex_call_options (Some 50) None))) ''r1''
       = []
   \<and> timers (fire 1 (retryRequest 0 (ex_pending None (ex_call_options (Some 50) None))))
       = [(2, 31000, DeadlineCb ''r1'')]
   \<and> emitted (fire 1 (retryRequest 0 (ex_pending None (ex_call_options (Some 50) None))))
       = [Ev_requestInitiated ex_request 0, Ev_requestRetry ex_request 1]
   \<and> pendingRequests (fire 1 (retryRequest 0 (ex_pending None (ex_call_options (Some 50) None))))
       = [(''r1'', 0)]
   \<and> timers (fire 0 (ex_pending None (ex_call_options (Some 50) None)))
       = [(1, 1050, RetryResumeCb 0)]
   \<and> timers (fire 1 (fire 0 (ex_pending None (ex_call_options (Some 50) None))))
       = [(2, 31050, DeadlineCb ''r1'')]
   \<and> 0 < defaultTimeout ex_retrying
   \<and> find (\<lambda>t. fst t = 1) (timers ex_retrying) = Some (1, 1050, RetryResumeCb 0)
   \<and> timers (fire 1 ex_retrying) = [(2, 31050, DeadlineCb ''r1'')]
   \<and> emitted (fire 1 ex_retrying)
       = [Ev_requestInitiated ex_request 0, Ev_requestRetry ex_request 1]"
proof -
  let ?s = "ex_pending None (ex_call_options (Some 50) None)"
  let ?m = "ex_message ''f1'' ''failure'' (Some ''r1'')"
  have f: "pendingRequests ?s = [(''r1'', 0)]" "timers ?s = [(0, 50, DeadlineCb ''r1'')]"
      "pr_timeout (heap ?s 0) = Some 0" "pr_retries (heap ?s 0) = 0"
      "pr_maxRetries (heap ?s 0) = 3" "pr_retryDelay (heap ?s 0) = 1000"
      "pr_message (heap ?s 0) = ex_request" "defaultTimeout ?s = 30000"
      "emitted ?s = [Ev_requestInitiated ex_request 0]" "clock ?s = 0" "nextHandle ?s = 1"
    by (simp_all add: ex_pending_def ex_call_options_def protocol_defs)
      (simp_all add: ex_request_def ex_message_def)
  have g: "defaultTimeout ex_retrying = 30000" "timers ex_retrying = [(1, 1050, RetryResumeCb 0)]"
      "clock ex_retrying = 50" "nextHandle ex_retrying = 2" "pr_id (heap ex_retrying 0) = ''r1''"
      "pr_message (heap ex_retrying 0) = ex_request" "pr_retries (heap ex_retrying 0) = 1"
      "emitted ex_retrying = [Ev_requestInitiated ex_request 0]"
    by (simp_all add: ex_retrying_def run_def ex_call_options_def protocol_defs)
      (simp_all add: ex_request_def ex_message_def)
  have td: "timer_delay 1000 = 1000" "timer_delay 30000 = 30000"
    by (simp_all add: timer_delay_def)
  have h1: "reachable ?s" by (rule reachable_ex_pending)
  have h2: "map_of (pendingRequests ?s) ''r1'' = Some 0" by (simp add: f)
  have h3: "pr_retries (heap ?s 0) < pr_maxRetries (heap ?s 0)" by (simp add: f)
  have h4: "0 < defaultTimeout ?s" by (simp add: f)
  have h5: "sole_timer ?s ''r1'' 0"
    by (simp add: sole_timer_def retry_timers_def deadline_timers_def f)
  have h6: "m_performative ?m = ''failure''" and h7: "m_inReplyTo ?m = Some ''r1''"
    and h8: "''r1'' \<noteq> []"
    by (simp_all add: ex_message_def)
  have h9: "find (\<lambda>t. fst t = 0) (timers ?s) = Some (0, 50, DeadlineCb ''r1'')"
    by (simp add: f)
  have k1: "0 < defaultTimeout ex_retrying" by (simp add: g)
  have k2: "find (\<lambda>t. fst t = 1) (timers ex_retrying) = Some (1, 1050, RetryResumeCb 0)"
    by (simp add: g)
  note c2 = retry_rearms_deadline [OF h1 h2 h3 h4 h5 h6 h7 h8, of 0]
  have w: "handleMessageWithConversation ?m 0 ?s = retryRequest 0 ?s"
    using c2 by blast
  have e1: "retry_effect 0 ''r1'' ?s (retryRequest 0 ?s)"
    using c2 by blast
  have e2: "retry_effect 0 ''r1'' (expire 0 50 ?s) (fire 0 ?s)"
    using c2 h9 by blast
  have e3: "timers (fire 1 ex_retrying)
               = filter (\<lambda>t. fst t \<noteq> 1) (timers ex_retrying)
                 @ [(nextHandle ex_retrying,
                     max (clock ex_retrying) 1050 + timer_delay (defaultTimeout ex_retrying),
                     DeadlineCb (pr_id (heap ex_retrying 0)))]
           \<and> emitted (fire 1 ex_retrying)
               = emitted ex_retrying @ [Ev_requestRetry (pr_message (heap ex_retrying 0))
                                          (pr_retries (heap ex_retrying 0))]"
    using c2 k1 k2 by blast
  have x: "timers (expire 0 50 ?s) = []" "clock (expire 0 50 ?s) = 50"
      "nextHandle (expire 0 50 ?s) = 1" "heap (expire 0 50 ?s) = heap ?s"
      "defaultTimeout (expire 0 50 ?s) = 30000"
    by (simp_all add: expire_def f)
  have a: "timers (retryRequest 0 ?s) = [(1, 1000, RetryResumeCb 0)]"
      "deadline_timers (retryRequest 0 ?s) ''r1'' = []"
      "timers (fire 1 (retryRequest 0 ?s)) = [(2, 31000, DeadlineCb ''r1'')]"
      "emitted (fire 1 (retryRequest 0 ?s))
         = [Ev_requestInitiated ex_request 0, Ev_requestRetry ex_request 1]"
      "pendingRequests (fire 1 (retryRequest 0 ?s)) = [(''r1'', 0)]"
    using e1 unfolding retry_effect_def Let_def f td by simp_all
  have b: "timers (fire 0 ?s) = [(1, 1050, RetryResumeCb 0)]"
      "timers (fire 1 (fire 0 ?s)) = [(2, 31050, DeadlineCb ''r1'')]"
    using e2 unfolding retry_effect_def Let_def x f td by simp_all
  have d: "timers (fire 1 ex_retrying) = [(2, 31050, DeadlineCb ''r1'')]"
      "emitted (fire 1 ex_retrying)
         = [Ev_requestInitiated ex_request 0, Ev_requestRetry ex_request 1]"
    using e3 unfolding g td by simp_all
  show ?thesis
    using h1 h2 h3 h4 h5 h9 w a b k1 k2 d by blast
qed

text \<open>
  C2 as stated fails in three ways. On an instance constructed with the timeout option
  \<open>-1\<close>: after the failure reply and the retry delay the retry is notified, the request
  is still pending, and no timer is armed. With the retry delay \<open>2 ^ 31\<close>: the timer of
  the retry delay, armed at 50, is due at 51. With a failure reply that arrives while a
  retry delay is running: the timer of that delay is not cleared, a second one is armed,
  and when both have fired two deadline timers for \<open>r1\<close> are active, the entry holds the
  handle of the second, and \<open>requestRetry\<close> has been emitted twice with the count 2.
\<close>

theorem retry_claim_fails:
  "reachable ex_negative_default
   \<and> defaultTimeout ex_negative_default = - 1
   \<and> pendingRequests ex_negative_default = [(''r1'', 0)]
   \<and> pr_retries (heap ex_negative_default 0) = 1
   \<and> emitted ex_negative_default
       = [Ev_requestInitiated ex_request 0, Ev_requestRetry ex_request 1]
   \<and> timers ex_negative_default = []
   \<and> reachable ex_long_retryDelay
   \<and> pendingRequests ex_long_retryDelay = [(''r1'', 0)]
   \<and> pr_retryDelay (heap ex_long_retryDelay 0) = 2147483648
   \<and> clock ex_long_retryDelay = 50
   \<and> timers ex_long_retryDelay = [(1, 51, RetryResumeCb 0)]
   \<and> reachable ex_overlap
   \<and> pendingRequests ex_overlap = [(''r1'', 0)]
   \<and> pr_retries (heap ex_overlap 0) = 2
   \<and> pr_timeout (heap ex_overlap 0) = Some 4
   \<and> timers ex_overlap = [(3, 31050, DeadlineCb ''r1''), (4, 31050, DeadlineCb ''r1'')]
   \<and> emitted ex_overlap
       = [Ev_requestInitiated ex_request 0, Ev_requestRetry ex_request 2,
          Ev_requestRetry ex_request 2]"
proof -
  have h: "reachable ex_negative_default" "reachable ex_long_retryDelay" "reachable ex_overlap"
    unfolding ex_negative_default_def ex_long_retryDelay_def ex_overlap_def
    by (rule reachable_run[OF reachable_new])+
  have a: "defaultTimeout ex_negative_default = - 1"
      "pendingRequests ex_negative_default = [(''r1'', 0)]"
      "pr_retries (heap ex_negative_default 0) = 1"
      "emitted ex_negative_default
         = [Ev_requestInitiated ex_request 0, Ev_requestRetry ex_request 1]"
      "timers ex_negative_default = []"
    by (simp_all add: ex_negative_default_def run_def ex_call_options_def ex_request_def
          ex_message_def protocol_defs)
  have b: "pendingRequests ex_long_retryDelay = [(''r1'', 0)]"
      "pr_retryDelay (heap ex_long_retryDelay 0) = 2147483648"
      "clock ex_long_retryDelay = 50"
      "timers ex_long_retryDelay = [(1, 51, RetryResumeCb 0)]"
    by (simp_all add: ex_long_retryDelay_def run_def ex_call_options_def ex_request_def
          ex_message_def protocol_defs)
  have c: "pendingRequests ex_overlap = [(''r1'', 0)]"
      "pr_retries (heap ex_overlap 0) = 2"
      "pr_timeout (heap ex_overlap 0) = Some 4"
      "timers ex_overlap = [(3, 31050, DeadlineCb ''r1''), (4, 31050, DeadlineCb ''r1'')]"
      "emitted ex_overlap
         = [Ev_requestInitiated ex_request 0, Ev_requestRetry ex_request 2,
            Ev_requestRetry ex_request 2]"
    by (simp_all add: ex_overlap_def run_def ex_call_options_def ex_request_def
          ex_message_def protocol_defs handleMessageWithConversation_def)
  show ?thesis using h a b c by blast
qed

subsection \<open>The timeout of a retried request\<close>

text \<open>
  C10 (as amended). On an instance whose default timeout is positive and at most
  \<open>2 ^ 31 - 1\<close>, when the timer of a retry delay fires, the deadline timer that is armed
  for the request is due the default timeout of the instance after that moment, whatever
  timeout the request was initiated with. The default timeout is 30000 when the
  constructor is given no timeout option, a non-zero option overrides it, and no
  operation changes it. A request initiated with a timeout option that is positive and
  at most \<open>2 ^ 31 - 1\<close> has its first deadline that long after the call.
\<close>

theorem retry_deadline_is_default:
  assumes "0 < defaultTimeout s" and "defaultTimeout s \<le> 2147483647"
    and "find (\<lambda>t. fst t = h) (timers s) = Some (h, due, RetryResumeCb a)"
  shows "timers (fire h s)
           = filter (\<lambda>t. fst t \<noteq> h) (timers s)
             @ [(nextHandle s, max (clock s) due + defaultTimeout s, DeadlineCb (pr_id (heap s a)))]
       \<and> pr_timeout (heap (fire h s) a) = Some (nextHandle s)
       \<and> defaultTimeout (step act s) = defaultTimeout s
       \<and> (ro_timeout ro = None \<longrightarrow>
            defaultTimeout (RequestResponseProtocol_new now ro) = 30000)
       \<and> (ro_timeout ro = Some d \<and> d \<noteq> 0 \<longrightarrow>
            defaultTimeout (RequestResponseProtocol_new now ro) = d)
       \<and> (m_performative m = ''request'' \<and> ro_timeout opts = Some T \<and> 0 < T
            \<and> T \<le> 2147483647 \<longrightarrow>
            timers (snd (initiateRequest m c opts s))
              = timers s @ [(nextHandle s, clock s + T, DeadlineCb (m_id m))])"
proof -
  let ?u = "expire h due s"
  have i: "timers (snd (initiateRequest m c opts s))
              = timers s @ [(nextHandle s, clock s + T, DeadlineCb (m_id m))]"
    if "m_performative m = ''request''" "ro_timeout opts = Some T" "0 < T" "T \<le> 2147483647"
    using that
    by (simp add: initiateRequest_def Let_def setTimeout_def emit_def or_num_def
          timer_delay_def)
  have du: "0 < defaultTimeout ?u" using assms(1) by (simp add: expire_def)
  have f: "fire h s = retryRequest_resume a ?u"
    using assms(3) by (simp add: fire_def)
  have td: "timer_delay (defaultTimeout s) = defaultTimeout s"
    using assms(1,2) by (simp add: timer_delay_def)
  have n: "ro_timeout ro = None \<longrightarrow>
            defaultTimeout (RequestResponseProtocol_new now ro) = 30000"
    and o: "ro_timeout ro = Some d \<and> d \<noteq> 0 \<longrightarrow>
            defaultTimeout (RequestResponseProtocol_new now ro) = d"
    by (simp_all add: RequestResponseProtocol_new_def or_num_def)
  show ?thesis
    unfolding f
    using retryRequest_resume_effect[OF du, of a] i n o td
    by (simp add: step_defaultTimeout expire_def)
qed

text \<open>The theorem at a request initiated with the timeout option 0, while its first
  retry delay runs.\<close>

theorem retry_deadline_is_default_witness:
  "0 < defaultTimeout ex_zero_option_retrying
   \<and> defaultTimeout ex_zero_option_retrying \<le> 2147483647
   \<and> find (\<lambda>t. fst t = 1) (timers ex_zero_option_retrying) = Some (1, 31000, RetryResumeCb 0)
   \<and> timers (fire 1 ex_zero_option_retrying) = [(2, 61000, DeadlineCb ''r1'')]
   \<and> pr_timeout (heap (fire 1 ex_zero_option_retrying) 0) = Some 2
   \<and> ro_timeout (ex_call_options None None) = None
   \<and> defaultTimeout (RequestResponseProtocol_new 0 (ex_call_options None None)) = 30000
   \<and> ro_timeout (ex_call_options (Some 5000) None) = Some 5000 \<and> (5000::int) \<noteq> 0
   \<and> defaultTimeout (RequestResponseProtocol_new 0 (ex_call_options (Some 5000) None)) = 5000
   \<and> m_performative ex_request = ''request''
   \<and> ro_timeout (ex_call_options (Some 50) None) = Some 50 \<and> (0::int) < 50
   \<and> (50::int) \<le> 2147483647
   \<and> timers (snd (initiateRequest ex_request 0 (ex_call_options (Some 50) None)
                     ex_zero_option_retrying))
       = [(1, 31000, RetryResumeCb 0), (2, 30050, DeadlineCb ''r1'')]"
proof -
  have f: "defaultTimeout ex_zero_option_retrying = 30000"
      "timers ex_zero_option_retrying = [(1, 31000, RetryResumeCb 0)]"
      "clock ex_zero_option_retrying = 30000" "nextHandle ex_zero_option_retrying = 2"
      "pr_id (heap ex_zero_option_retrying 0) = ''r1''"
    by (simp_all add: ex_zero_option_retrying_def run_def ex_call_options_def ex_request_def
          ex_message_def protocol_defs)
  have h1: "0 < defaultTimeout ex_zero_option_retrying" by (simp add: f)
  have h2: "defaultTimeout ex_zero_option_retrying \<le> 2147483647" by (simp add: f)
  have h3: "find (\<lambda>t. fst t = 1) (timers ex_zero_option_retrying)
              = Some (1, 31000, RetryResumeCb 0)"
    by (simp add: f)
  have r: "m_performative ex_request = ''request''" "m_id ex_request = ''r1''"
      "ro_timeout (ex_call_options (Some 50) None) = Some 50"
      "ro_timeout (ex_call_options None None) = None"
      "ro_timeout (ex_call_options (Some 5000) None) = Some 5000"
    by (simp_all add: ex_request_def ex_message_def ex_call_options_def)
  show ?thesis
    using h1 h2 h3 r
      retry_deadline_is_default
        [OF h1 h2 h3, of "Advance 0" "ex_call_options None None" 0 5000 ex_request
           "ex_call_options (Some 50) None" 50 0]
      retry_deadline_is_default
        [OF h1 h2 h3, of "Advance 0" "ex_call_options (Some 5000) None" 0 5000 ex_request
           "ex_call_options (Some 50) None" 50 0]
    unfolding f by simp
qed

text \<open>
  C10 as stated fails on an instance constructed with the timeout option \<open>-1\<close>: the
  request, initiated with timeout 50, is retried after its deadline, and after the retry
  delay no timer is armed. A request initiated with the timeout option \<open>-5\<close> has no
  first deadline. A request initiated with the timeout option \<open>2 ^ 31\<close> has its first
  deadline 1 after the call; and on an instance constructed with the timeout option
  \<open>2 ^ 31\<close> the deadline of the retried request is due 1 after the retry delay.
\<close>

theorem retry_deadline_not_armed:
  "reachable ex_negative_default_expiry
   \<and> defaultTimeout ex_negative_default_expiry = - 1
   \<and> map_of (pendingRequests ex_negative_default_expiry) ''r1'' = Some 0
   \<and> pr_retries (heap ex_negative_default_expiry 0) = 1
   \<and> clock ex_negative_default_expiry = 1050
   \<and> timers ex_negative_default_expiry = []
   \<and> timers (ex_pending None (ex_call_options (Some (- 5)) None)) = []
   \<and> clock ex_long_timeout = 0
   \<and> timers ex_long_timeout = [(0, 1, DeadlineCb ''r1'')]
   \<and> reachable ex_long_default
   \<and> defaultTimeout ex_long_default = 2147483648
   \<and> clock ex_long_default = 1050
   \<and> timers ex_long_default = [(2, 1051, DeadlineCb ''r1'')]"
proof -
  have h: "reachable ex_negative_default_expiry" "reachable ex_long_default"
    unfolding ex_negative_default_expiry_def ex_long_default_def
    by (rule reachable_run[OF reachable_new])+
  have a: "defaultTimeout ex_negative_default_expiry = - 1"
      "map_of (pendingRequests ex_negative_default_expiry) ''r1'' = Some 0"
      "pr_retries (heap ex_negative_default_expiry 0) = 1"
      "clock ex_negative_default_expiry = 1050"
      "timers ex_negative_default_expiry = []"
      "timers (ex_pending None (ex_call_options (Some (- 5)) None)) = []"
    by (simp_all add: ex_negative_default_expiry_def run_def ex_pending_def ex_call_options_def
          ex_request_def ex_message_def protocol_defs)
  have b: "clock ex_long_timeout = 0" "timers ex_long_timeout = [(0, 1, DeadlineCb ''r1'')]"
    by (simp_all add: ex_long_timeout_def ex_defs protocol_defs)
  have c: "defaultTimeout ex_long_default = 2147483648" "clock ex_long_default = 1050"
      "timers ex_long_default = [(2, 1051, DeadlineCb ''r1'')]"
    by (simp_all add: ex_long_default_def run_def ex_call_options_def ex_request_def
          ex_message_def protocol_defs)
  show ?thesis using h a b c by blast
qed

subsection \<open>The retry budget\<close>

text \<open>In a well-formed state (every reachable state is one, and so is the state in which
  the callback of a timer runs), when the retry count of a pending request is not below
  its maximum, the expiry of its deadline rejects its promise with \<open>Request timeout\<close>
  and a failure reply rejects it with the text of the reply (RequestFailed); the entry is
  deleted, its timer cleared, and \<open>requestTimeout\<close> or \<open>requestFailed\<close> is emitted.\<close>

lemma exhausted_budget_rejects:
  assumes "protocol_inv s"
    and "map_of (pendingRequests s) k = Some a"
    and "\<not> pr_retries (heap s a) < pr_maxRetries (heap s a)"
    and "m_inReplyTo m = Some k" and "k \<noteq> []"
  shows "pendingRequests (handleTimeout k s) = AList.delete k (pendingRequests s)
       \<and> map_of (pendingRequests (handleTimeout k s)) k = None
       \<and> timers (handleTimeout k s)
           = filter (\<lambda>t. Some (fst t) \<noteq> pr_timeout (heap s a)) (timers s)
       \<and> settled (handleTimeout k s)
           = (settled s)(pr_promise (heap s a) \<mapsto> Rejected (RequestTimeout ''Request timeout''))
       \<and> emitted (handleTimeout k s)
           = emitted s @ [Ev_requestTimeout (pr_message (heap s a))
                            (RequestTimeout ''Request timeout'')]
       \<and> pendingRequests (handleFailure m s) = AList.delete k (pendingRequests s)
       \<and> map_of (pendingRequests (handleFailure m s)) k = None
       \<and> timers (handleFailure m s)
           = filter (\<lambda>t. Some (fst t) \<noteq> pr_timeout (heap s a)) (timers s)
       \<and> settled (handleFailure m s)
           = (settled s)(pr_promise (heap s a) \<mapsto>
                Rejected (RequestFailed (or_str (m_content m) ''Request failed'')))
       \<and> emitted (handleFailure m s)
           = emitted s @ [Ev_requestFailed m (pr_message (heap s a))
                            (RequestFailed (or_str (m_content m) ''Request failed''))]"
proof -
  note i = assms(1)
  note t = settle_remove_effect[OF i assms(2), of "Rejected (RequestTimeout ''Request timeout'')"]
  note f = settle_remove_effect[OF i assms(2),
             of "Rejected (RequestFailed (or_str (m_content m) ''Request failed''))"]
  have a: "handleTimeout k s
      = emit (Ev_requestTimeout (pr_message (heap s a)) (RequestTimeout ''Request timeout''))
          (settle (pr_promise (heap s a)) (Rejected (RequestTimeout ''Request timeout''))
             (clearPendingRequest k s))"
    using assms(2,3)
    by (simp add: handleTimeout_def Let_def clearPendingRequest_fields(1) settle_def)
  have b: "handleFailure m s
      = emit (Ev_requestFailed m (pr_message (heap s a))
                (RequestFailed (or_str (m_content m) ''Request failed'')))
          (settle (pr_promise (heap s a))
             (Rejected (RequestFailed (or_str (m_content m) ''Request failed'')))
             (clearPendingRequest k s))"
    using assms(2-5)
    by (simp add: handleFailure_def Let_def clearPendingRequest_fields(1) settle_def
          truthy_str_def)
  show ?thesis
    unfolding a b by (simp add: emit_def t f map_of_delete_same)
qed

text \<open>
  C3, at the scenario of the claim: a default instance, \<open>initiateRequest\<close> with the
  options \<open>maxRetries = 0\<close> and \<open>timeout = 50\<close>, no reply. The entry is stored with
  \<open>maxRetries = 3\<close>, because \<open>options.maxRetries || this.defaultMaxRetries\<close> takes 0 as
  absent. At time 50 the deadline fires and starts a retry: the promise is not settled and
  the request stays pending. It is rejected with \<open>Request timeout\<close> at time 93050, after
  three retries, and not before.
\<close>

theorem maxRetries_zero_option_ignored:
  "pr_maxRetries (heap (ex_pending None (ex_call_options (Some 50) (Some 0))) 0) = 3
   \<and> timers (ex_pending None (ex_call_options (Some 50) (Some 0))) = [(0, 50, DeadlineCb ''r1'')]
   \<and> clock (run_until 10 50 (ex_pending None (ex_call_options (Some 50) (Some 0)))) = 50
   \<and> settled (run_until 10 50 (ex_pending None (ex_call_options (Some 50) (Some 0)))) 0 = None
   \<and> pendingRequests (run_until 10 50 (ex_pending None (ex_call_options (Some 50) (Some 0))))
       = [(''r1'', 0)]
   \<and> pr_retries (heap (run_until 10 50 (ex_pending None (ex_call_options (Some 50) (Some 0)))) 0)
       = 1
   \<and> settled (run_until 10 93049 (ex_pending None (ex_call_options (Some 50) (Some 0)))) 0 = None
   \<and> settled (run_until 10 93050 (ex_pending None (ex_call_options (Some 50) (Some 0)))) 0
       = Some (Rejected (RequestTimeout ''Request timeout''))
   \<and> pr_retries (heap (run_until 10 93050 (ex_pending None (ex_call_options (Some 50) (Some 0)))) 0)
       = 3
   \<and> timers (run_until 10 93050 (ex_pending None (ex_call_options (Some 50) (Some 0)))) = []"
  by (simp add: ex_defs protocol_defs eval_nat_numeral)

text \<open>The comparison \<open>retries < maxRetries\<close> itself allows for no retry at all: with
  the option \<open>maxRetries = -1\<close>, which \<open>||\<close> lets through, the same request is rejected
  at time 50 without a retry.\<close>

lemma negative_maxRetries_rejects_at_deadline:
  "pr_maxRetries (heap (ex_pending None (ex_call_options (Some 50) (Some (- 1)))) 0) = - 1
   \<and> clock (run_until 10 50 (ex_pending None (ex_call_options (Some 50) (Some (- 1))))) = 50
   \<and> settled (run_until 10 50 (ex_pending None (ex_call_options (Some 50) (Some (- 1))))) 0
       = Some (Rejected (RequestTimeout ''Request timeout''))
   \<and> pr_retries (heap (run_until 10 50 (ex_pending None (ex_call_options (Some 50) (Some (- 1))))) 0)
       = 0
   \<and> pendingRequests (run_until 10 50 (ex_pending None (ex_call_options (Some 50) (Some (- 1)))))
       = []"
  by (simp add: ex_defs protocol_defs eval_nat_numeral)

end
